theory Spec2Isabelle
  imports Main "HOL-Library.Word"
begin

unbundle bit_operations_syntax

section \<open>Machine types and errors\<close>

text \<open>
  The integer types are those of the one ISA binding of the repository,
  \<^verbatim>\<open>risc16::AssemblerTraits\<close> in \<^verbatim>\<open>src/src/asm.cpp\<close>:
  \<^verbatim>\<open>AddressType = std::uint16_t\<close>, \<^verbatim>\<open>LargestType = std::uint64_t\<close>,
  \<^verbatim>\<open>BlockSizeType = MaxCapableUint<4>\<close> (which is \<^verbatim>\<open>std::uint8_t\<close>, as
  \<^verbatim>\<open>cilog2(4) = 3\<close>), \<^verbatim>\<open>OpCodeType = MaxCapableUint<13>\<close> (also \<^verbatim>\<open>std::uint8_t\<close>),
  \<^verbatim>\<open>TranslationId = std::size_t\<close>. \<^verbatim>\<open>std::size_t\<close> is 64 bits wide.
  The trait functions \<^verbatim>\<open>getSizeInBasic\<close> and \<^verbatim>\<open>getInstrWidthInBasic\<close> are
  parameters of the generic code; the binding's own functions are defined below.
\<close>

type_synonym AddressType = "16 word"
type_synonym LargestType = "64 word"
type_synonym BlockSizeType = "8 word"
type_synonym OpCodeType = "8 word"
type_synonym RegisterCodeType = "8 word"
type_synonym ModifierCodeType = "8 word"
type_synonym size_t = "64 word"
type_synonym TranslationId = "64 word"

text \<open>
  Every C++ exception the modelled code throws is a value: the standard exception class
  with the message of the throw site. \<open>LengthError\<close> and \<open>BadAlloc\<close> are
  \<^verbatim>\<open>std::length_error\<close> and \<^verbatim>\<open>std::bad_alloc\<close> as \<^verbatim>\<open>std::vector\<close> throws them, with a
  message that the implementation chooses. \<open>UndefinedBehaviour\<close> stands for an operation
  for which C++ defines no result: a read outside a string, a shift by the width of the
  type or more.
\<close>

datatype error =
    InvalidArgument string
  | DomainError string
  | OutOfRange string
  | LengthError
  | BadAlloc
  | UndefinedBehaviour string

section \<open>Numeric helpers (easyMath.h)\<close>

text \<open>
  Characters are compared by their codes; the ranges tested all lie in ASCII, where the
  signed and the unsigned reading of \<^verbatim>\<open>char\<close> agree.
\<close>

definition valueBetweenInclusive :: "char \<Rightarrow> char \<Rightarrow> char \<Rightarrow> bool" where
  "valueBetweenInclusive v b e =
     ((of_char b :: nat) \<le> of_char v \<and> (of_char v :: nat) \<le> of_char e)"

definition DivideRoundUp :: "nat \<Rightarrow> nat \<Rightarrow> nat" where
  "DivideRoundUp numerator denominator =
     (let remainder = numerator mod denominator; ret = numerator div denominator
      in if remainder \<noteq> 0 then ret + 1 else ret)"

text \<open>
  \<^verbatim>\<open>nBitMask<Integer>(size)\<close> is \<^verbatim>\<open>(static_cast<Integer>(1) << size) - 1\<close>. C++ defines the
  shift for a count below the width of the (promoted) type; the callers modelled here pass
  3, 4, or a count below those, except \<^verbatim>\<open>CodedInstruction::load\<close>, which passes the size of
  a field; the model of \<^verbatim>\<open>load\<close> has a case of its own for a size from 64 on.
\<close>

definition nBitMask :: "nat \<Rightarrow> 'a::len word" where
  "nBitMask sz = push_bit sz 1 - 1"

section \<open>Lexical helpers (easyParse.h)\<close>

definition BACKSLASH :: char where "BACKSLASH = CHR 0x5C"
definition DQUOTE :: char where "DQUOTE = CHR 0x22"
definition SQUOTE :: char where "SQUOTE = CHR 0x27"

text \<open>The value of a \<^verbatim>\<open>char\<close> converted to \<^verbatim>\<open>std::uint8_t\<close>.\<close>

definition charCode :: "char \<Rightarrow> 8 word" where
  "charCode ch = of_nat (of_char ch)"

definition hexDigitConverter :: "char \<Rightarrow> 8 word" where
  "hexDigitConverter ch =
     (if valueBetweenInclusive ch CHR ''a'' CHR ''f''
      then charCode ch - charCode CHR ''a'' + 10
      else if valueBetweenInclusive ch CHR ''A'' CHR ''F''
      then charCode ch - charCode CHR ''A'' + 10
      else charCode ch - charCode CHR ''0'')"

definition digitConverter :: "char \<Rightarrow> 8 word" where
  "digitConverter ch = charCode ch - charCode CHR ''0''"

definition isOctalDigit :: "char \<Rightarrow> bool" where
  "isOctalDigit ch = valueBetweenInclusive ch CHR ''0'' CHR ''7''"

definition isDecDigit :: "char \<Rightarrow> bool" where
  "isDecDigit ch = valueBetweenInclusive ch CHR ''0'' CHR ''9''"

text \<open>\<^verbatim>\<open>convertBinaryString\<close>: the last \<open>min(bitSize, size)\<close> digits, most significant first.\<close>

fun convertBinaryLoop :: "string \<Rightarrow> 'a::len word \<Rightarrow> 'a word" where
  "convertBinaryLoop [] ret = ret"
| "convertBinaryLoop (c # cs) ret =
     convertBinaryLoop cs (push_bit 1 ret OR (if c = CHR ''1'' then 1 else 0))"

definition convertBinaryString :: "string \<Rightarrow> 'a::len word" where
  "convertBinaryString numberString =
     (let sz = min LENGTH('a) (length numberString)
      in convertBinaryLoop (drop (length numberString - sz) numberString) 0)"

text \<open>\<^verbatim>\<open>convertDigit_<perBitSize>\<close> is specialised for 3 and 4 bits; the primary template
  returns \<open>-1\<close>.\<close>

definition convertDigit' :: "nat \<Rightarrow> char \<Rightarrow> 8 word" where
  "convertDigit' perBitSize digit =
     (if perBitSize = 3 then digitConverter digit
      else if perBitSize = 4 then hexDigitConverter digit
      else - 1)"

text \<open>
  The loop of \<^verbatim>\<open>convertDirectTranslatableBaseString_\<close> over the digits it reads, with its
  variables \<open>(retVal, size, retCarrySize, retCarryVal)\<close>. It stops when \<open>size\<close> is 0. In the
  branch for a digit that does not fit whole, \<^verbatim>\<open>retVal = retVal << size\<close> is followed by
  \<^verbatim>\<open>retVal = retCarryVal & mask\<close>, which replaces the value.
\<close>

fun convertDirectLoop ::
  "nat \<Rightarrow> string \<Rightarrow> 'a::len word \<times> nat \<times> nat \<times> 8 word \<Rightarrow> 'a word \<times> nat \<times> nat \<times> 8 word" where
  "convertDirectLoop perBitSize [] st = st"
| "convertDirectLoop perBitSize (c # cs) (retVal, sz, retCarrySize, retCarryVal) =
     (if sz > 0
      then (if sz \<ge> perBitSize
            then convertDirectLoop perBitSize cs
                   (push_bit perBitSize retVal
                      OR (ucast (convertDigit' perBitSize c) AND nBitMask perBitSize),
                    sz - perBitSize, retCarrySize, retCarryVal)
            else (let retCarrySize1 = perBitSize - sz;
                      retVal1 = push_bit sz retVal;
                      retCarryVal1 = (ucast ((ucast (convertDigit' perBitSize c) :: 'a word)
                                        AND nBitMask perBitSize) :: 8 word);
                      msk = (nBitMask sz :: 'a word);
                      retVal2 = ucast retCarryVal1 AND msk;
                      retCarryVal2 = retCarryVal1 AND NOT (ucast msk);
                      retCarryVal3 = drop_bit sz retCarryVal2
                  in convertDirectLoop perBitSize cs (retVal2, 0, retCarrySize1, retCarryVal3)))
      else (retVal, sz, retCarrySize, retCarryVal))"

text \<open>
  \<^verbatim>\<open>convertDirectTranslatableBaseString_<Integer, perBitSize>\<close>. The result is the tuple
  the function returns and the digits it leaves in \<open>numberString\<close>. Sizes are
  \<^verbatim>\<open>std::size_t\<close>; \<open>bitSize - carrySize\<close> wraps around when the carry is larger.
\<close>

definition convertDirectTranslatableBaseString' ::
  "nat \<Rightarrow> string \<Rightarrow> nat \<Rightarrow> 8 word \<Rightarrow> ('a::len word \<times> nat \<times> 8 word) \<times> string" where
  "convertDirectTranslatableBaseString' perBitSize numberString carrySize carry =
     (let numberStringSize = length numberString * perBitSize;
          avail = (LENGTH('a) + 2 ^ 64 - carrySize) mod 2 ^ 64;
          sz = (if avail < numberStringSize then avail else numberStringSize);
          count = DivideRoundUp sz perBitSize;
          (retVal, sz1, retCarrySize, retCarryVal) =
             convertDirectLoop perBitSize
               (drop (length numberString - count) numberString)
               (ucast carry, sz, 0, 0)
      in ((retVal, retCarrySize, retCarryVal),
          (if length numberString > count
           then take (length numberString - count) numberString
           else [])))"

definition convertHexString :: "string \<Rightarrow> 'a::len word" where
  "convertHexString numberString =
     fst (fst (convertDirectTranslatableBaseString' 4 numberString 0 0))"

definition convertOctString :: "string \<Rightarrow> 'a::len word" where
  "convertOctString numberString =
     fst (fst (convertDirectTranslatableBaseString' 3 numberString 0 0))"

fun convertDecimalLoop :: "string \<Rightarrow> 'a::len word \<Rightarrow> 'a word" where
  "convertDecimalLoop [] ret = ret"
| "convertDecimalLoop (digit # ds) ret =
     convertDecimalLoop ds (ret * 10 + (of_nat (of_char digit) - of_nat (of_char CHR ''0'')))"

definition convertDecimalString :: "string \<Rightarrow> 'a::len word" where
  "convertDecimalString numberString = convertDecimalLoop numberString 0"

text \<open>
  \<^verbatim>\<open>WHITESPACE_STRING\<close> is a \<^verbatim>\<open>std::string_view\<close> initialised from the string literal
  \<^verbatim>\<open>" \n\t\r\0"\<close>. The constructor from a character pointer measures the string with
  \<^verbatim>\<open>char_traits::length\<close>, which stops at the first NUL.
\<close>

definition string_view_of_literal :: "string \<Rightarrow> string" where
  "string_view_of_literal s = takeWhile (\<lambda>c. c \<noteq> CHR 0x00) s"

definition WHITESPACE_STRING :: string where
  "WHITESPACE_STRING =
     string_view_of_literal [CHR '' '', CHR 0x0A, CHR 0x09, CHR 0x0D, CHR 0x00]"

text \<open>
  Positions in a string are \<^verbatim>\<open>std::size_t\<close>; \<open>npos\<close> is the largest value. The search
  functions of \<^verbatim>\<open>std::string_view\<close> return the first (or last) position that qualifies, or
  \<open>npos\<close>; \<open>substr\<close> is called below only with a position inside the string.
\<close>

definition npos :: nat where
  "npos = 18446744073709551615"

definition find_first_from :: "(char \<Rightarrow> bool) \<Rightarrow> string \<Rightarrow> nat \<Rightarrow> nat" where
  "find_first_from P line pos =
     (case List.find (\<lambda>i. P (line ! i)) [pos..<length line] of None \<Rightarrow> npos | Some i \<Rightarrow> i)"

definition find_last :: "(char \<Rightarrow> bool) \<Rightarrow> string \<Rightarrow> nat" where
  "find_last P line =
     (case List.find (\<lambda>i. P (line ! i)) (rev [0..<length line]) of None \<Rightarrow> npos | Some i \<Rightarrow> i)"

definition find_first_not_of :: "string \<Rightarrow> string \<Rightarrow> nat \<Rightarrow> nat" where
  "find_first_not_of line chars pos = find_first_from (\<lambda>c. c \<notin> set chars) line pos"

definition find_last_not_of :: "string \<Rightarrow> string \<Rightarrow> nat" where
  "find_last_not_of line chars = find_last (\<lambda>c. c \<notin> set chars) line"

definition find_first_of :: "string \<Rightarrow> string \<Rightarrow> nat \<Rightarrow> nat" where
  "find_first_of line chars pos = find_first_from (\<lambda>c. c \<in> set chars) line pos"

definition substr :: "string \<Rightarrow> nat \<Rightarrow> nat \<Rightarrow> string" where
  "substr line pos count = take count (drop pos line)"

definition advanceOverWhiteSpace :: "string \<Rightarrow> nat \<Rightarrow> nat" where
  "advanceOverWhiteSpace line offset = find_first_not_of line WHITESPACE_STRING offset"

definition stripWhiteSpace :: "string \<Rightarrow> string" where
  "stripWhiteSpace line =
     (let begin = find_first_not_of line WHITESPACE_STRING 0;
          end = find_last_not_of line WHITESPACE_STRING
      in if begin = npos then [] else substr line begin (end - begin + 1))"

definition stripCommentsAndWhiteSpace :: "string \<Rightarrow> char \<Rightarrow> string" where
  "stripCommentsAndWhiteSpace line commentDelim =
     (let commentCharacter = find_first_of line [commentDelim] 0
      in stripWhiteSpace (substr line 0 commentCharacter))"

definition validateHexString :: "string \<Rightarrow> bool" where
  "validateHexString numberString =
     list_all (\<lambda>digit. valueBetweenInclusive digit CHR ''0'' CHR ''9''
                \<or> valueBetweenInclusive digit CHR ''a'' CHR ''f''
                \<or> valueBetweenInclusive digit CHR ''A'' CHR ''F'') numberString"

definition validateOctString :: "string \<Rightarrow> bool" where
  "validateOctString numberString =
     list_all (\<lambda>digit. valueBetweenInclusive digit CHR ''0'' CHR ''7'') numberString"

definition validateDecString :: "string \<Rightarrow> bool" where
  "validateDecString numberString =
     list_all (\<lambda>digit. valueBetweenInclusive digit CHR ''0'' CHR ''9'') numberString"

definition validateBinString :: "string \<Rightarrow> bool" where
  "validateBinString numberString =
     list_all (\<lambda>digit. digit = CHR ''0'' \<or> digit = CHR ''1'') numberString"

text \<open>
  \<^verbatim>\<open>convertEscapedString\<close>. The function reads the first two characters of its argument
  without a check of its length; a shorter argument is a read outside the string.
\<close>

definition charOfByte :: "8 word \<Rightarrow> char" where
  "charOfByte w = char_of (unat w)"

definition convertEscapedString :: "string \<Rightarrow> error + char" where
  "convertEscapedString escapedString =
     (case escapedString of
        [] \<Rightarrow> Inl (UndefinedBehaviour ''read outside the string'')
      | c0 # r0 \<Rightarrow>
          if c0 \<noteq> BACKSLASH
          then Inl (InvalidArgument (''Expected escaped string starting with '' @ [BACKSLASH]))
          else (case r0 of
             [] \<Rightarrow> Inl (UndefinedBehaviour ''read outside the string'')
           | ch # r1 \<Rightarrow>
               if ch = SQUOTE then Inr SQUOTE
               else if ch = DQUOTE then Inr DQUOTE
               else if ch = CHR ''?'' then Inr CHR ''?''
               else if ch = BACKSLASH then Inr BACKSLASH
               else if ch = CHR ''a'' then Inr (CHR 0x07)
               else if ch = CHR ''b'' then Inr (CHR 0x08)
               else if ch = CHR ''f'' then Inr (CHR 0x0C)
               else if ch = CHR ''n'' then Inr (CHR 0x0A)
               else if ch = CHR ''r'' then Inr (CHR 0x0D)
               else if ch = CHR ''t'' then Inr (CHR 0x09)
               else if ch = CHR ''v'' then Inr (CHR 0x0B)
               else if ch = CHR ''x'' \<or> ch = CHR ''X''
               then (if \<not> validateHexString r1
                     then Inl (InvalidArgument
                            ''Escaped [x|X] is not followed by hex number string.'')
                     else Inr (charOfByte (convertHexString r1)))
               else if ch = CHR ''o'' \<or> ch = CHR ''O''
               then (if \<not> validateOctString r1
                     then Inl (InvalidArgument
                            ''Escaped [o|O] is not followed by oct number string.'')
                     else Inr (charOfByte (convertOctString r1)))
               else (if \<not> validateDecString r0
                     then Inl (InvalidArgument ''Escaped string is not decimal number string.'')
                     else Inr (charOfByte (convertDecimalString r0)))))"

text \<open>
  \<^verbatim>\<open>advanceOverText\<close>. The iterator is the text that is left, the sentinel its end; the
  result holds the text left after the call. \<^verbatim>\<open>std::isxdigit\<close> is read in the C locale.
\<close>

definition isxdigit :: "char \<Rightarrow> bool" where
  "isxdigit ch = (valueBetweenInclusive ch CHR ''0'' CHR ''9''
                  \<or> valueBetweenInclusive ch CHR ''a'' CHR ''f''
                  \<or> valueBetweenInclusive ch CHR ''A'' CHR ''F'')"

definition advanceOverText :: "string \<Rightarrow> error + ((char \<times> bool) \<times> string)" where
  "advanceOverText text =
     (case text of
        [] \<Rightarrow> Inl (InvalidArgument ''Empty String to advance over'')
      | ch # rest \<Rightarrow>
          if ch = BACKSLASH
          then (case rest of
                  [] \<Rightarrow> Inr ((BACKSLASH, True), [])
                | c # rest1 \<Rightarrow>
                    if c = CHR ''x'' \<or> c = CHR ''X''
                    then (if rest1 = []
                          then Inl (InvalidArgument
                                 (''Expected Value after '' @ [BACKSLASH] @ ''[x,X]''))
                          else (case convertEscapedString
                                       (BACKSLASH # c # takeWhile isxdigit rest1) of
                                  Inl e \<Rightarrow> Inl e
                                | Inr v \<Rightarrow> Inr ((v, True), dropWhile isxdigit rest1)))
                    else if c = CHR ''o'' \<or> c = CHR ''O''
                    then (case convertEscapedString
                                 (BACKSLASH # c # takeWhile isOctalDigit rest1) of
                            Inl e \<Rightarrow> Inl e
                          | Inr v \<Rightarrow> Inr ((v, True), dropWhile isOctalDigit rest1))
                    else (case convertEscapedString [BACKSLASH, c] of
                            Inl e \<Rightarrow> Inl e
                          | Inr v \<Rightarrow> Inr ((v, True), rest1)))
          else Inr ((ch, False), rest))"

lemma length_dropWhile_le_Suc: "length (dropWhile P xs) \<le> Suc (length xs)"
  by (rule le_SucI [OF length_dropWhile_le])

lemma advanceOverText_shorter:
  "advanceOverText text = Inr (r, rest) \<Longrightarrow> length rest < length text"
  by (auto simp: advanceOverText_def less_Suc_eq_le length_dropWhile_le_Suc
      split: list.splits if_splits sum.splits)

text \<open>
  \<^verbatim>\<open>advanceSkipReportQuotedText\<close>. Its two nested loops are one recursion over the text
  that is left, with the flags \<open>isText\<close> and \<open>isDoubleQuote\<close>: while \<open>isText\<close> holds a step
  is a turn of the inner loop, otherwise it is the conditional that follows the inner
  loop. The value \<open>-1\<close> is the character \<open>0xFF\<close>.
\<close>

function skipQuotedLoop :: "bool \<Rightarrow> bool \<Rightarrow> string \<Rightarrow> error + ((char \<times> bool) \<times> string)" where
  "skipQuotedLoop isText isDoubleQuote text =
     (if text = [] then Inr ((CHR 0xFF, True), [])
      else (case advanceOverText text of
              Inl e \<Rightarrow> Inl e
            | Inr ((charUnderEval, isEscaped), rest) \<Rightarrow>
                if isText
                then (if charUnderEval = DQUOTE \<and> isDoubleQuote \<and> \<not> isEscaped
                      then skipQuotedLoop False False rest
                      else if charUnderEval = SQUOTE \<and> \<not> isDoubleQuote \<and> \<not> isEscaped
                      then skipQuotedLoop False False rest
                      else skipQuotedLoop True isDoubleQuote rest)
                else (let isDoubleQuote1 = (charUnderEval = DQUOTE);
                          isText1 = (\<not> isEscaped \<and> (isDoubleQuote1 \<or> charUnderEval = SQUOTE))
                      in if \<not> isText1 then Inr ((charUnderEval, True), rest)
                         else skipQuotedLoop True isDoubleQuote1 rest)))"
  by pat_completeness auto
termination
  by (relation "measure (\<lambda>(isText, isDoubleQuote, text). length text)")
    (auto dest: advanceOverText_shorter)

declare skipQuotedLoop.simps [simp del]

definition advanceSkipReportQuotedText :: "string \<Rightarrow> error + ((char \<times> bool) \<times> string)" where
  "advanceSkipReportQuotedText text =
     (case advanceOverText text of
        Inl e \<Rightarrow> Inl e
      | Inr ((charUnderEval, isEscaped), rest) \<Rightarrow>
          (let isDoubleQuote = (charUnderEval = DQUOTE);
               isText = (\<not> isEscaped \<and> (isDoubleQuote \<or> charUnderEval = SQUOTE))
           in if \<not> isText then Inr ((charUnderEval, False), rest)
              else skipQuotedLoop isText isDoubleQuote rest))"

text \<open>\<^verbatim>\<open>extractTillDelimiter\<close>: the piece up to the delimiter and the text after it.\<close>

definition extractTillDelimiter :: "string \<Rightarrow> char \<Rightarrow> string \<times> string" where
  "extractTillDelimiter str delim =
     (let found = find_first_of str [delim] 0
      in if found = npos then (str, [])
         else (substr str 0 found, substr str (found + 1) npos))"

text \<open>\<^verbatim>\<open>splitUsingDelimiterList\<close>: a first loop over the delimiters, a second over what is
  left of the text, with the last delimiter.\<close>

fun splitByEach :: "string \<Rightarrow> char list \<Rightarrow> string list \<times> string" where
  "splitByEach str [] = ([], str)"
| "splitByEach str (d # ds) =
     (if str = [] then ([], str)
      else (let (piece, str1) = extractTillDelimiter str d;
                (pieces, str2) = splitByEach str1 ds
            in (piece # pieces, str2)))"

lemma extractTillDelimiter_shorter:
  "str \<noteq> [] \<Longrightarrow> length (snd (extractTillDelimiter str d)) < length str"
  by (auto simp: extractTillDelimiter_def Let_def substr_def min_def)

function splitByLast :: "string \<Rightarrow> char \<Rightarrow> string list" where
  "splitByLast str d =
     (if str = [] then []
      else fst (extractTillDelimiter str d) # splitByLast (snd (extractTillDelimiter str d)) d)"
  by pat_completeness auto
termination
  by (relation "measure (\<lambda>(str, d). length str)") (auto dest: extractTillDelimiter_shorter)

declare splitByLast.simps [simp del]

definition splitUsingDelimiterList :: "string \<Rightarrow> char list \<Rightarrow> string list" where
  "splitUsingDelimiterList str delim =
     (let (pieces, str1) = splitByEach str delim
      in pieces @ splitByLast str1 (last delim))"

text \<open>\<^verbatim>\<open>convertNumberString<UInteger>\<close>.\<close>

definition convertNumberString :: "string \<Rightarrow> error + 'a::len word" where
  "convertNumberString numberString0 =
     (if length numberString0 = 0 then Inl (InvalidArgument ''empty string'')
      else (let isNegative = (hd numberString0 = CHR ''-'');
                numberString = (if isNegative then substr numberString0 1 npos else numberString0)
            in if length numberString = 0 then Inl (InvalidArgument ''string with - only'')
               else (let parsed =
                       (if hd numberString = CHR ''0''
                        then (if length numberString = 1 then Inr (0, True)
                              else if numberString ! 1 = CHR ''x'' \<or> numberString ! 1 = CHR ''X''
                              then (if validateHexString (substr numberString 2 npos)
                                    then Inr (convertHexString (substr numberString 2 npos), False)
                                    else Inl (InvalidArgument
                                           ''Invalid characters in hex number string''))
                              else if numberString ! 1 = CHR ''b'' \<or> numberString ! 1 = CHR ''B''
                              then (if validateBinString (substr numberString 2 npos)
                                    then Inr (convertBinaryString (substr numberString 2 npos), False)
                                    else Inl (InvalidArgument
                                           ''Invalid characters in binary number string''))
                              else if validateOctString (substr numberString 1 npos)
                              then Inr (convertOctString (substr numberString 1 npos), False)
                              else Inl (InvalidArgument
                                     ''Invalid characters in oct number string''))
                        else if validateDecString numberString
                        then Inr (convertDecimalString numberString, False)
                        else Inl (InvalidArgument
                               ''Invalid characters in decimal number string''))
                     in case parsed of
                          Inl e \<Rightarrow> Inl e
                        | Inr (ret, returned) \<Rightarrow>
                            if returned then Inr ret
                            else if isNegative then Inr (NOT ret + 1)
                            else Inr ret)))"

definition isExactSubstr :: "string \<Rightarrow> string \<Rightarrow> nat \<Rightarrow> bool" where
  "isExactSubstr root check offset =
     (if offset \<ge> length root then False
      else substr root offset (length check) = check)"

section \<open>Tokens (tokeniser.h)\<close>

definition NO_DATA :: BlockSizeType where
  "NO_DATA = 0"

definition ASCII_DATA :: BlockSizeType where
  "ASCII_DATA = 1"

datatype SymbolType = JUMP | DATA | CONST'

record SymbolToken =
  symbolName :: string
  isExport :: bool
  symbolType :: SymbolType
  blockSizeCode :: BlockSizeType
  init_value :: "LargestType list"

record InstructionToken =
  opCode :: OpCodeType
  registerArgs :: "(size_t \<times> RegisterCodeType) list"
  immediateArgs :: "(size_t \<times> LargestType) list"
  modifierArgs :: "(size_t \<times> ModifierCodeType) list"
  symbolArgs :: "(size_t \<times> (string \<times> size_t \<times> size_t)) list"

subsection \<open>The tokeniser of symbol definitions\<close>

definition EXPORT_SWITCH :: string where "EXPORT_SWITCH = ''.export''"
definition DATA_SWITCH :: string where "DATA_SWITCH = ''.data''"
definition CONST_SWITCH :: string where "CONST_SWITCH = ''.const''"
definition ASCII_SWITCH :: string where "ASCII_SWITCH = ''.ascii''"

text \<open>
  The tokeniser's cursor is a \<^verbatim>\<open>std::size_t\<close>; \<open>cursor_ + count\<close> wraps around.
\<close>

definition advanceCursor :: "string \<Rightarrow> nat \<Rightarrow> nat \<Rightarrow> nat" where
  "advanceCursor line cursor count = advanceOverWhiteSpace line ((cursor + count) mod 2 ^ 64)"

definition invalidCursor :: "string \<Rightarrow> nat \<Rightarrow> bool" where
  "invalidCursor line cursor = (cursor \<ge> length line)"

text \<open>\<^verbatim>\<open>validateSymbolName_\<close>; the first character of an empty \<^verbatim>\<open>std::string\<close> reads as
  NUL.\<close>

definition validateSymbolName' :: "string \<Rightarrow> error + unit" where
  "validateSymbolName' name =
     (let first = (case name of [] \<Rightarrow> CHR 0x00 | c # cs \<Rightarrow> c);
          invalidBegin = (valueBetweenInclusive first CHR ''0'' CHR ''9'' \<or> first = CHR ''@'')
      in if invalidBegin
         then Inl (InvalidArgument ''Invalid symbol Name (invalid begin character)'')
         else if list_all (\<lambda>i. valueBetweenInclusive i CHR ''a'' CHR ''z''
                               \<or> valueBetweenInclusive i CHR ''A'' CHR ''Z''
                               \<or> valueBetweenInclusive i CHR ''0'' CHR ''9''
                               \<or> i = CHR ''_'' \<or> i = CHR ''@'') name
         then Inr ()
         else Inl (InvalidArgument ''Invalid symbol Name''))"

text \<open>
  \<^verbatim>\<open>std::vector::resize\<close> with a value-initialised filler. A vector that is to grow
  beyond \<^verbatim>\<open>max_size()\<close> throws \<^verbatim>\<open>std::length_error\<close>, and \<^verbatim>\<open>std::bad_alloc\<close> when it cannot
  get the memory. Both limits are parameters: \<open>maxSize\<close> is \<^verbatim>\<open>max_size()\<close>, a constant
  of the implementation (at most \<open>2 ^ 61 - 1\<close> for elements of 8 bytes and a 64-bit
  \<^verbatim>\<open>std::size_t\<close>), and \<open>memory\<close> is the number of elements up to which the vector can
  grow at the time of the call. The other strings and vectors of the modelled code hold
  no more elements than the line has characters; their allocations are taken to succeed.
\<close>

definition resize ::
  "nat \<Rightarrow> nat \<Rightarrow> nat \<Rightarrow> LargestType list \<Rightarrow> error + LargestType list" where
  "resize maxSize memory n xs =
     (if n \<le> length xs then Inr (take n xs)
      else if maxSize - length xs < n - length xs then Inl LengthError
      else if memory < n then Inl BadAlloc
      else Inr (xs @ replicate (n - length xs) 0))"

text \<open>
  \<^verbatim>\<open>tokenizeSymbol_\<close> is modelled in stages, each on the line, the cursor and the token.
  This stage is the part for the element count (the block under
  \<^verbatim>\<open>if(symbolToken_.blockSizeCode != literal::ASCII_DATA)\<close> that reads \<^verbatim>\<open>[count]\<close>).
\<close>

definition countMessage :: string where
  "countMessage = ''Non Ascii Data or const types must have element count inside ''
                  @ [SQUOTE] @ ''[]'' @ [SQUOTE]"

definition tokenizeElementCount ::
  "nat \<Rightarrow> nat \<Rightarrow> string \<Rightarrow> nat \<Rightarrow> SymbolToken \<Rightarrow> error + (SymbolToken \<times> nat)" where
  "tokenizeElementCount maxSize memory line cursor tok =
     (if blockSizeCode tok \<noteq> ASCII_DATA
      then (if invalidCursor line cursor then Inl (InvalidArgument countMessage)
            else if line ! cursor \<noteq> CHR ''['' then Inl (InvalidArgument countMessage)
            else (let cursor1 = advanceCursor line cursor 1;
                      end = find_first_from (\<lambda>c. c = CHR '']'') line cursor1
                  in if end = npos
                     then Inl (InvalidArgument (''Expected '' @ [SQUOTE] @ '']'' @ [SQUOTE]))
                     else (case (convertNumberString (substr line cursor1 (end - cursor1))
                                   :: error + size_t) of
                             Inl e \<Rightarrow> Inl e
                           | Inr count \<Rightarrow>
                               (let cursor2 = end + 1
                                in case resize maxSize memory (unat count)
                                          (SymbolToken.init_value tok) of
                                     Inl e \<Rightarrow> Inl e
                                   | Inr iv \<Rightarrow>
                                       Inr (tok\<lparr>SymbolToken.init_value := iv\<rparr>,
                                            advanceCursor line cursor2 0)))))
      else Inr (tok, cursor))"

text \<open>The two loops over the numeric initialisers: the first parses the pieces into the
  places below \<open>min\<close>, the second writes 0 into the places from \<open>min\<close> on.\<close>

function parseInitLoop ::
  "nat \<Rightarrow> nat \<Rightarrow> string list \<Rightarrow> LargestType list \<Rightarrow> error + LargestType list" where
  "parseInitLoop i mn splitData iv =
     (if i < mn
      then (case convertNumberString (stripWhiteSpace (splitData ! i)) of
              Inl e \<Rightarrow> Inl e
            | Inr v \<Rightarrow> parseInitLoop (i + 1) mn splitData (iv[i := v]))
      else Inr iv)"
  by pat_completeness auto
termination
  by (relation "measure (\<lambda>(i, mn, splitData, iv). mn - i)") auto

declare parseInitLoop.simps [simp del]

function zeroInitLoop :: "nat \<Rightarrow> LargestType list \<Rightarrow> LargestType list" where
  "zeroInitLoop i iv = (if i < length iv then zeroInitLoop (i + 1) (iv[i := 0]) else iv)"
  by pat_completeness auto
termination
  by (relation "measure (\<lambda>(i, iv). length iv - i)") auto

declare zeroInitLoop.simps [simp del]

text \<open>The characters of an ASCII initialiser, one \<^verbatim>\<open>advanceOverText\<close> each. A \<^verbatim>\<open>char\<close>
  is signed, and is converted to the 64-bit value with its sign.\<close>

function asciiInitLoop :: "string \<Rightarrow> LargestType list \<Rightarrow> error + LargestType list" where
  "asciiInitLoop text iv =
     (if text = [] then Inr iv
      else (case advanceOverText text of
              Inl e \<Rightarrow> Inl e
            | Inr ((ch, isEscaped), rest) \<Rightarrow>
                asciiInitLoop rest (iv @ [scast (charCode ch)])))"
  by pat_completeness auto
termination
  by (relation "measure (\<lambda>(text, iv). length text)") (auto dest: advanceOverText_shorter)

declare asciiInitLoop.simps [simp del]

text \<open>This stage is the part for the initial values (from the second
  \<^verbatim>\<open>if(invalidCursor())\<close> of the size-dependent part to the end of the function).\<close>

definition tokenizeInitialValues ::
  "string \<Rightarrow> nat \<Rightarrow> SymbolToken \<Rightarrow> error + (SymbolToken \<times> nat)" where
  "tokenizeInitialValues line cursor tok =
     (if invalidCursor line cursor
      then (if symbolType tok = CONST'
            then Inl (InvalidArgument ''Const symbol requires initial values'')
            else if blockSizeCode tok = ASCII_DATA
            then Inl (InvalidArgument ''ASCII data requires initial value'')
            else Inr (tok, cursor))
      else if blockSizeCode tok \<noteq> ASCII_DATA
      then (let splitData = splitUsingDelimiterList (substr line cursor npos) [CHR '',''];
                mn = min (length (SymbolToken.init_value tok)) (length splitData)
            in case parseInitLoop 0 mn splitData (SymbolToken.init_value tok) of
                 Inl e \<Rightarrow> Inl e
               | Inr iv \<Rightarrow> Inr (tok\<lparr>SymbolToken.init_value := zeroInitLoop mn iv\<rparr>, cursor))
      else (if line ! cursor \<noteq> DQUOTE \<or> last line \<noteq> DQUOTE
            then Inl (InvalidArgument
                   (''ASCII data requires initital value within '' @ [SQUOTE, DQUOTE, SQUOTE]))
            else (let text = substr line (cursor + 1)
                               ((length line + 2 ^ 64 - cursor - 2) mod 2 ^ 64)
                  in case asciiInitLoop text (SymbolToken.init_value tok) of
                       Inl e \<Rightarrow> Inl e
                     | Inr iv \<Rightarrow> Inr (tok\<lparr>SymbolToken.init_value := iv @ [0]\<rparr>, cursor))))"

text \<open>This stage is the part for the size switch.\<close>

definition tokenizeSizeSwitch ::
  "(string \<Rightarrow> error + BlockSizeType) \<Rightarrow> string \<Rightarrow> nat \<Rightarrow> SymbolToken
     \<Rightarrow> error + (SymbolToken \<times> nat)" where
  "tokenizeSizeSwitch resolveSizeOf line cursor tok =
     (if isExactSubstr line ASCII_SWITCH cursor
      then Inr (tok\<lparr>blockSizeCode := ASCII_DATA\<rparr>, advanceCursor line cursor (length ASCII_SWITCH))
      else if line ! cursor = CHR ''.''
      then (let end = find_first_of line WHITESPACE_STRING cursor;
                sizeString = stripWhiteSpace
                  (substr line cursor (if end = npos then npos else end - cursor))
            in case resolveSizeOf sizeString of
                 Inl e \<Rightarrow> Inl e
               | Inr code \<Rightarrow> Inr (tok\<lparr>blockSizeCode := code\<rparr>, advanceCursor line end 0))
      else Inl (InvalidArgument
             (''Data or Const symbols must have size switch, which begins with ''
              @ [SQUOTE] @ ''.'' @ [SQUOTE])))"

text \<open>This stage is the part from the start of the function to the size switch: the
  name, the export switch, the kind and the size. \<open>cursor\<close> is the position of the colon,
  \<open>tok\<close> the token, which \<^verbatim>\<open>tokenize\<close> has reset. The flag of the result tells whether the
  function has returned (a jump symbol).\<close>

definition emptySymbolToken :: SymbolToken where
  "emptySymbolToken =
     \<lparr>SymbolToken.symbolName = [], SymbolToken.isExport = False, symbolType = JUMP,
      blockSizeCode = 0, SymbolToken.init_value = []\<rparr>"

definition tokenizeSymbolHeader ::
  "(string \<Rightarrow> error + BlockSizeType) \<Rightarrow> string \<Rightarrow> nat \<Rightarrow> SymbolToken
     \<Rightarrow> error + (SymbolToken \<times> nat \<times> bool)" where
  "tokenizeSymbolHeader resolveSizeOf line cursor tok =
     (let tok1 = tok\<lparr>SymbolToken.symbolName := stripWhiteSpace (substr line 0 cursor)\<rparr>
      in case validateSymbolName' (SymbolToken.symbolName tok1) of
           Inl e \<Rightarrow> Inl e
         | Inr u \<Rightarrow>
            (let cursor1 = advanceCursor line cursor 1;
                 tok2 = tok1\<lparr>SymbolToken.isExport := isExactSubstr line EXPORT_SWITCH cursor1\<rparr>;
                 cursor2 = (if SymbolToken.isExport tok2
                            then advanceCursor line cursor1 (length EXPORT_SWITCH)
                            else cursor1)
             in if invalidCursor line cursor2
                then Inr (tok2\<lparr>symbolType := JUMP\<rparr>, cursor2, True)
                else (case (if isExactSubstr line DATA_SWITCH cursor2
                            then Inr (tok2\<lparr>symbolType := DATA\<rparr>,
                                      advanceCursor line cursor2 (length DATA_SWITCH))
                            else if isExactSubstr line CONST_SWITCH cursor2
                            then Inr (tok2\<lparr>symbolType := CONST'\<rparr>,
                                      advanceCursor line cursor2 (length CONST_SWITCH))
                            else Inl (InvalidArgument
                              ''Symbol which is not jump, must have .data or .const switches''))
                      of Inl e \<Rightarrow> Inl e
                       | Inr (tok3, cursor3) \<Rightarrow>
                          if invalidCursor line cursor3
                          then Inl (InvalidArgument
                            ''Data or Const symbols must have size switch, element count and (if const) intial values'')
                          else (case tokenizeSizeSwitch resolveSizeOf line cursor3 tok3 of
                                  Inl e \<Rightarrow> Inl e
                                | Inr (tok4, cursor4) \<Rightarrow> Inr (tok4, cursor4, False)))))"

text \<open>\<^verbatim>\<open>tokenizeSymbol_\<close>: the stages in their order.\<close>

definition tokenizeSymbol' ::
  "nat \<Rightarrow> nat \<Rightarrow> (string \<Rightarrow> error + BlockSizeType) \<Rightarrow> string \<Rightarrow> nat \<Rightarrow> SymbolToken
     \<Rightarrow> error + (SymbolToken \<times> nat)" where
  "tokenizeSymbol' maxSize memory resolveSizeOf line cursor tok =
     (case tokenizeSymbolHeader resolveSizeOf line cursor tok of
        Inl e \<Rightarrow> Inl e
      | Inr (tok4, cursor4, returned) \<Rightarrow>
          if returned then Inr (tok4, cursor4)
          else (case tokenizeElementCount maxSize memory line cursor4 tok4 of
                  Inl e \<Rightarrow> Inl e
                | Inr (tok5, cursor5) \<Rightarrow> tokenizeInitialValues line cursor5 tok5))"

section \<open>The ISA binding (asm.cpp)\<close>

definition getSizeInBasic :: "BlockSizeType \<Rightarrow> size_t" where
  "getSizeInBasic sz =
     (if sz = NO_DATA then 0
      else if sz = ASCII_DATA then 1
      else if sz = 2 then 1
      else if sz = 3 then 2
      else if sz = 4 then 4
      else 0)"

definition getInstrWidthInBasic :: "OpCodeType \<Rightarrow> size_t" where
  "getInstrWidthInBasic op = 1"

text \<open>\<^verbatim>\<open>resolveSize\<close> of the ISA binding: the array of size names has four places, of which
  three are given; the fourth is the empty string.\<close>

definition sizeTypes :: "string list" where
  "sizeTypes = [''.word'', ''.dword'', ''.qword'', '''']"

fun indexOf :: "string list \<Rightarrow> string \<Rightarrow> nat \<Rightarrow> nat option" where
  "indexOf [] str i = None"
| "indexOf (x # xs) str i = (if x = str then Some i else indexOf xs str (i + 1))"

definition resolveSize :: "string \<Rightarrow> error + BlockSizeType" where
  "resolveSize str =
     (case indexOf sizeTypes str 0 of
        Some i \<Rightarrow> Inr (of_nat (i + 2))
      | None \<Rightarrow> Inl (InvalidArgument ''Invalid Size Type''))"

section \<open>Address resolver (addressResolver.h)\<close>

record AddressResolver =
  codeAddressOffset' :: AddressType
  dataAddressOffset' :: AddressType

definition newAddressResolver :: AddressResolver where
  "newAddressResolver = \<lparr>codeAddressOffset' = 0, dataAddressOffset' = 0\<rparr>"

definition getCodeAddressOffset :: "AddressResolver \<Rightarrow> AddressType" where
  "getCodeAddressOffset r = codeAddressOffset' r"

definition getDataAddressOffset :: "AddressResolver \<Rightarrow> AddressType" where
  "getDataAddressOffset r = dataAddressOffset' r"

text \<open>
  \<^verbatim>\<open>dataAddressOffset_ += getSizeInBasic(blockSizeCode) * init_value.size()\<close>: the sum is
  computed in \<^verbatim>\<open>std::size_t\<close> and stored back into the 16-bit address.
\<close>

definition updateOffsets_symbol ::
  "(BlockSizeType \<Rightarrow> size_t) \<Rightarrow> SymbolToken \<Rightarrow> AddressResolver \<Rightarrow> AddressResolver" where
  "updateOffsets_symbol gsb symbol r =
     (if symbolType symbol = DATA
      then r\<lparr>dataAddressOffset' :=
             ucast ((ucast (dataAddressOffset' r) :: size_t)
                    + gsb (blockSizeCode symbol) * of_nat (length (init_value symbol)))\<rparr>
      else r)"

definition updateOffsets_instr ::
  "(OpCodeType \<Rightarrow> size_t) \<Rightarrow> InstructionToken \<Rightarrow> AddressResolver \<Rightarrow> AddressResolver" where
  "updateOffsets_instr giw instr r =
     r\<lparr>codeAddressOffset' :=
         ucast ((ucast (codeAddressOffset' r) :: size_t) + giw (opCode instr))\<rparr>"

section \<open>Symbol table (symbolTable.h)\<close>

record BasicSymbol' =
  translationUnitId :: TranslationId
  symbolName :: string
  isExport :: bool

record JumpSymbol = BasicSymbol' +
  codeAddressOffset :: AddressType

record DataSymbol = BasicSymbol' +
  dataAddressOffset :: AddressType
  sizeType :: BlockSizeType
  elementCount :: size_t

record ConstSymbol = BasicSymbol' +
  sizeType :: BlockSizeType
  init_value :: "LargestType list"

datatype Var_t = VJump JumpSymbol | VData DataSymbol | VConst ConstSymbol

text \<open>
  The table holds a reference to the address resolver; the model keeps the resolver's
  state inside the table's state, and the resolver's own mutators act on that field.
\<close>

record SymbolTable =
  addressResolver' :: AddressResolver
  symbols' :: "Var_t list"
  codeBaseAddress' :: size_t
  dataBaseAddress' :: size_t

definition newSymbolTable :: "AddressResolver \<Rightarrow> SymbolTable" where
  "newSymbolTable addr =
     \<lparr>addressResolver' = addr, symbols' = [], codeBaseAddress' = 0, dataBaseAddress' = 0\<rparr>"

fun getLabelData :: "Var_t \<Rightarrow> BasicSymbol'" where
  "getLabelData (VJump a) = BasicSymbol'.truncate a"
| "getLabelData (VData a) = BasicSymbol'.truncate a"
| "getLabelData (VConst a) = BasicSymbol'.truncate a"

text \<open>\<^verbatim>\<open>findSymbol_\<close>: the first entry of that name that is of the asking unit or exported;
  \<open>None\<close> is \<^verbatim>\<open>symbols_.end()\<close>.\<close>

fun findSymbol' :: "Var_t list \<Rightarrow> string \<Rightarrow> TranslationId \<Rightarrow> Var_t option" where
  "findSymbol' [] name ident = None"
| "findSymbol' (i # rest) name ident =
     (let labelData = getLabelData i in
      if BasicSymbol'.symbolName labelData = name
         \<and> (translationUnitId labelData = ident \<or> BasicSymbol'.isExport labelData)
      then Some i
      else findSymbol' rest name ident)"

definition SymbolRedefined :: error where
  "SymbolRedefined = DomainError ''Symbol name already exists in same translation unit''"

definition ExportCollision :: error where
  "ExportCollision = DomainError
     ''Symbol name already exists, (either the existing symbol or new symbol is exported)''"

text \<open>\<^verbatim>\<open>findIfSymbol_\<close> returns nothing; it throws at the first entry that collides.\<close>

fun findIfSymbol' :: "Var_t list \<Rightarrow> BasicSymbol' \<Rightarrow> error + unit" where
  "findIfSymbol' [] check = Inr ()"
| "findIfSymbol' (label # rest) check =
     (let labelData = getLabelData label in
      if BasicSymbol'.symbolName labelData = BasicSymbol'.symbolName check
      then (if translationUnitId labelData = translationUnitId check
            then Inl SymbolRedefined
            else if BasicSymbol'.isExport labelData \<or> BasicSymbol'.isExport check
            then Inl ExportCollision
            else findIfSymbol' rest check)
      else findIfSymbol' rest check)"

text \<open>
  The three insertions return the outcome of the call together with the state the call
  leaves behind, also when it throws.
\<close>

definition addJumpSymbol' ::
  "TranslationId \<Rightarrow> SymbolToken \<Rightarrow> SymbolTable \<Rightarrow> (error + unit) \<times> SymbolTable" where
  "addJumpSymbol' ident symbol T =
     (let entry = \<lparr>translationUnitId = ident,
                    BasicSymbol'.symbolName = SymbolToken.symbolName symbol,
                    BasicSymbol'.isExport = SymbolToken.isExport symbol,
                    codeAddressOffset = getCodeAddressOffset (addressResolver' T)\<rparr>
      in case findIfSymbol' (symbols' T) (BasicSymbol'.truncate entry) of
           Inl e \<Rightarrow> (Inl e, T)
         | Inr u \<Rightarrow> (Inr (), T\<lparr>symbols' := symbols' T @ [VJump entry]\<rparr>))"

definition addDataSymbol' ::
  "(BlockSizeType \<Rightarrow> size_t) \<Rightarrow> TranslationId \<Rightarrow> SymbolToken \<Rightarrow> SymbolTable
     \<Rightarrow> (error + unit) \<times> SymbolTable" where
  "addDataSymbol' rgsb ident symbol T =
     (let entry = \<lparr>translationUnitId = ident,
                    BasicSymbol'.symbolName = SymbolToken.symbolName symbol,
                    BasicSymbol'.isExport = SymbolToken.isExport symbol,
                    dataAddressOffset = getDataAddressOffset (addressResolver' T),
                    DataSymbol.sizeType = blockSizeCode symbol,
                    elementCount = of_nat (length (SymbolToken.init_value symbol))\<rparr>
      in case findIfSymbol' (symbols' T) (BasicSymbol'.truncate entry) of
           Inl e \<Rightarrow> (Inl e, T)
         | Inr u \<Rightarrow>
             (Inr (),
              T\<lparr>addressResolver' := updateOffsets_symbol rgsb symbol (addressResolver' T),
                symbols' := symbols' T @ [VData entry]\<rparr>))"

definition addConstSymbol' ::
  "TranslationId \<Rightarrow> SymbolToken \<Rightarrow> SymbolTable \<Rightarrow> (error + unit) \<times> SymbolTable" where
  "addConstSymbol' ident symbol T =
     (let entry = \<lparr>translationUnitId = ident,
                    BasicSymbol'.symbolName = SymbolToken.symbolName symbol,
                    BasicSymbol'.isExport = SymbolToken.isExport symbol,
                    ConstSymbol.sizeType = blockSizeCode symbol,
                    ConstSymbol.init_value = SymbolToken.init_value symbol\<rparr>
      in case findIfSymbol' (symbols' T) (BasicSymbol'.truncate entry) of
           Inl e \<Rightarrow> (Inl e, T)
         | Inr u \<Rightarrow> (Inr (), T\<lparr>symbols' := symbols' T @ [VConst entry]\<rparr>))"

text \<open>\<open>rgsb\<close> is \<^verbatim>\<open>getSizeInBasic\<close> of the resolver's trait object.\<close>

definition addSymbol ::
  "(BlockSizeType \<Rightarrow> size_t) \<Rightarrow> TranslationId \<Rightarrow> SymbolToken \<Rightarrow> SymbolTable
     \<Rightarrow> (error + unit) \<times> SymbolTable" where
  "addSymbol rgsb ident symbol T =
     (case symbolType symbol of
        JUMP \<Rightarrow> addJumpSymbol' ident symbol T
      | DATA \<Rightarrow> addDataSymbol' rgsb ident symbol T
      | CONST' \<Rightarrow> addConstSymbol' ident symbol T)"

definition setBaseAddress :: "size_t \<Rightarrow> size_t \<Rightarrow> SymbolTable \<Rightarrow> SymbolTable" where
  "setBaseAddress code data T = T\<lparr>codeBaseAddress' := code, dataBaseAddress' := data\<rparr>"

text \<open>
  \<^verbatim>\<open>resolveSymbol\<close>; \<open>gsb\<close> is \<^verbatim>\<open>getSizeInBasic\<close> of the table's trait object. The
  data address is computed in \<^verbatim>\<open>std::size_t\<close>. In the const branch the initialiser, a
  64-bit value, is shifted right by \<^verbatim>\<open>size * index\<close>; C++ defines that shift only for a
  count below 64, and \<open>drop_bit\<close> is that shift there.
\<close>

definition resolveSymbol ::
  "(BlockSizeType \<Rightarrow> size_t) \<Rightarrow> SymbolTable \<Rightarrow> TranslationId \<Rightarrow> string \<times> size_t \<times> size_t
     \<Rightarrow> error + LargestType" where
  "resolveSymbol gsb T ident data =
     (case data of (name, primary, secondary) \<Rightarrow>
      (case findSymbol' (symbols' T) name ident of
         None \<Rightarrow> Inl (InvalidArgument ''unidentified symbol'')
       | Some (VJump arg) \<Rightarrow>
           if primary \<noteq> 0 \<or> secondary \<noteq> 0
           then Inl (InvalidArgument ''Jump symbols may not have non-zero subscripts'')
           else Inr (ucast (codeAddressOffset arg))
       | Some (VData arg) \<Rightarrow>
           if primary < elementCount arg
           then (let size = gsb (DataSymbol.sizeType arg) in
                 if secondary < size
                 then Inr (dataBaseAddress' T + ucast (dataAddressOffset arg)
                           + size * primary + secondary)
                 else Inl (OutOfRange ''Index out of range for splitting element''))
           else Inl (OutOfRange ''Index out of range of array'')
       | Some (VConst arg) \<Rightarrow>
           if primary < of_nat (length (ConstSymbol.init_value arg))
           then (let size = gsb (ConstSymbol.sizeType arg) in
                 if secondary < size
                 then Inr (drop_bit (unat (size * secondary))
                             (ConstSymbol.init_value arg ! unat primary))
                 else Inl (OutOfRange ''Index out of range for splitting element''))
           else Inl (OutOfRange ''Index out of range of array'')))"

text \<open>
  The calls that change a table or its resolver, and a sequence of them; a call that
  throws leaves behind the state it had reached.
\<close>

datatype Call =
    AddSymbol TranslationId SymbolToken
  | SetBaseAddress size_t size_t
  | UpdateOffsets InstructionToken

fun call :: "(BlockSizeType \<Rightarrow> size_t) \<Rightarrow> (OpCodeType \<Rightarrow> size_t) \<Rightarrow> Call \<Rightarrow> SymbolTable
     \<Rightarrow> SymbolTable" where
  "call rgsb giw (AddSymbol ident symbol) T = snd (addSymbol rgsb ident symbol T)"
| "call rgsb giw (SetBaseAddress code data) T = setBaseAddress code data T"
| "call rgsb giw (UpdateOffsets instr) T =
     T\<lparr>addressResolver' := updateOffsets_instr giw instr (addressResolver' T)\<rparr>"

fun calls :: "(BlockSizeType \<Rightarrow> size_t) \<Rightarrow> (OpCodeType \<Rightarrow> size_t) \<Rightarrow> Call list \<Rightarrow> SymbolTable
     \<Rightarrow> SymbolTable" where
  "calls rgsb giw [] T = T"
| "calls rgsb giw (c # cs) T = calls rgsb giw cs (call rgsb giw c T)"

section \<open>Instruction encoder (codedInstruction.h)\<close>

text \<open>
  \<^verbatim>\<open>std::bitset<widthMax>\<close> is a word of \<open>widthMax\<close> bits (the type variable \<open>'w\<close>). The
  values loaded are of \<^verbatim>\<open>ValueType = std::uint64_t\<close>, the type of \<^verbatim>\<open>LargestType\<close>. A bitset
  made from an \<^verbatim>\<open>unsigned long long\<close> holds its low bits; a bitset shifted left by its
  width or more is 0. The field \<^verbatim>\<open>size\<close> is named \<open>size'\<close>.
\<close>

record FieldInfo =
  offset :: size_t
  size' :: size_t

definition bitset_of_ullong :: "64 word \<Rightarrow> 'w::len word" where
  "bitset_of_ullong val = ucast val"

text \<open>
  The body of the loop of \<^verbatim>\<open>load\<close>, for one field and its value. The mask is
  \<^verbatim>\<open>nBitMask<ValueType>(info.size)\<close>, that is \<^verbatim>\<open>(static_cast<std::uint64_t>(1) << size) - 1\<close>:
  for a size of 64 or more the shift is one by the width of the type or more, for which
  C++ defines no result.
\<close>

definition loadField :: "FieldInfo \<Rightarrow> 64 word \<Rightarrow> 'w::len word \<Rightarrow> error + 'w word" where
  "loadField info val data' =
     (if 64 \<le> unat (size' info)
      then Inl (UndefinedBehaviour ''shift count not below the width of the type'')
      else (let msk = (nBitMask (unat (size' info)) :: 64 word);
                data1 = data' AND NOT (push_bit (unat (offset info)) (bitset_of_ullong msk))
            in Inr (data1 OR push_bit (unat (offset info)) (bitset_of_ullong (val AND msk)))))"

fun loadLoop :: "FieldInfo list \<Rightarrow> 64 word list \<Rightarrow> 'w::len word \<Rightarrow> error + 'w word" where
  "loadLoop (info # fieldInfo) (val # dataList) data' =
     (case loadField info val data' of
        Inl e \<Rightarrow> Inl e
      | Inr data1 \<Rightarrow> loadLoop fieldInfo dataList data1)"
| "loadLoop fieldInfo dataList data' = Inr data'"

text \<open>\<^verbatim>\<open>load\<close> throws before it changes the bits, or returns the new bits.\<close>

definition load :: "FieldInfo list \<Rightarrow> 64 word list \<Rightarrow> 'w::len word \<Rightarrow> error + 'w word" where
  "load fieldInfo dataList data' =
     (if length fieldInfo \<noteq> length dataList
      then Inl (InvalidArgument ''Not matching field Info and data'')
      else loadLoop fieldInfo dataList data')"

text \<open>
  \<^verbatim>\<open>access\<close> has no embedding. Its body calls \<^verbatim>\<open>easyMath::nBitMask<std::bitset<widthMax>>\<close>,
  which names \<^verbatim>\<open>NumericTraits<std::bitset<widthMax>>\<close>. \<^verbatim>\<open>NumericTraits\<close> is constrained by
  the concept \<^verbatim>\<open>NumericType\<close> (the arithmetic operators, and conversions from and to the
  arithmetic types), which a bitset does not satisfy, and the generic body of \<^verbatim>\<open>nBitMask\<close>
  subtracts 1 from the shifted bitset. No instantiation of \<^verbatim>\<open>access\<close> is well formed;
  the class template is, for as long as \<^verbatim>\<open>access\<close> is not called.
\<close>

section \<open>Notions used to state the properties of the symbol table\<close>

text \<open>An existing entry collides with a definition when it has the same name and either
  the same unit, or one of the two is exported. \<open>header\<close> is the common part of the entry a
  definition creates.\<close>

definition collides :: "TranslationId \<Rightarrow> SymbolToken \<Rightarrow> Var_t \<Rightarrow> bool" where
  "collides ident symbol l =
     (BasicSymbol'.symbolName (getLabelData l) = SymbolToken.symbolName symbol
      \<and> (translationUnitId (getLabelData l) = ident
           \<or> BasicSymbol'.isExport (getLabelData l) \<or> SymbolToken.isExport symbol))"

definition header :: "TranslationId \<Rightarrow> SymbolToken \<Rightarrow> BasicSymbol'" where
  "header ident symbol =
     \<lparr>translationUnitId = ident, BasicSymbol'.symbolName = SymbolToken.symbolName symbol,
      BasicSymbol'.isExport = SymbolToken.isExport symbol\<rparr>"

text \<open>Tokens and instructions of the examples.\<close>

definition jumpToken :: "string \<Rightarrow> bool \<Rightarrow> SymbolToken" where
  "jumpToken name exported =
     \<lparr>SymbolToken.symbolName = name, SymbolToken.isExport = exported, symbolType = JUMP,
      blockSizeCode = NO_DATA, SymbolToken.init_value = []\<rparr>"

definition wordToken :: "string \<Rightarrow> SymbolType \<Rightarrow> BlockSizeType \<Rightarrow> LargestType list \<Rightarrow> SymbolToken" where
  "wordToken name kind sz vals =
     \<lparr>SymbolToken.symbolName = name, SymbolToken.isExport = False, symbolType = kind,
      blockSizeCode = sz, SymbolToken.init_value = vals\<rparr>"

definition instr :: "OpCodeType \<Rightarrow> InstructionToken" where
  "instr opc = \<lparr>opCode = opc, registerArgs = [], immediateArgs = [], modifierArgs = [],
      symbolArgs = []\<rparr>"

section \<open>Notions used to state the properties of the lexical helpers\<close>

text \<open>The number a string of digits denotes in a base (up to 16), most significant digit
  first.\<close>

fun digitsValue :: "nat \<Rightarrow> string \<Rightarrow> nat \<Rightarrow> nat" where
  "digitsValue base [] acc = acc"
| "digitsValue base (c # cs) acc = digitsValue base cs (base * acc + unat (hexDigitConverter c))"

text \<open>The line of scenario S3 of the specification, and a line whose element count is
  the largest \<^verbatim>\<open>std::size_t\<close>.\<close>

definition lineS3 :: string where
  "lineS3 = ''buf: .data .word [4] 1,2,3''"

definition lineHuge :: string where
  "lineHuge = ''e: .data .word [-1] 7,8''"

subsection \<open>Quoted spans\<close>

text \<open>
  A quoted span, read from the text alone: after the opening quote \<open>q\<close>, a backslash
  takes the next character with it, and the first \<open>q\<close> met otherwise closes the span.
  \<open>spanRest q text\<close> is the text after the closing quote, \<open>None\<close> when the text ends
  before it.
\<close>

fun spanRest :: "char \<Rightarrow> string \<Rightarrow> string option" where
  "spanRest q [] = None"
| "spanRest q (c # cs) =
     (if c = BACKSLASH then (case cs of [] \<Rightarrow> None | d # ds \<Rightarrow> spanRest q ds)
      else if c = q then Some cs
      else spanRest q cs)"

lemma spanRest_shorter: "spanRest q str = Some r \<Longrightarrow> length r < length str"
proof (induction q str rule: spanRest.induct)
  case (1 q)
  then show ?case by simp
next
  case (2 q c cs)
  then show ?case
    by (auto split: if_splits list.splits simp: less_Suc_eq)
qed

text \<open>\<open>skipSpans text\<close> is the text after the balanced quoted spans that \<open>text\<close> starts
  with, \<open>None\<close> when one of them is not closed.\<close>

function skipSpans :: "string \<Rightarrow> string option" where
  "skipSpans text =
     (case text of
        [] \<Rightarrow> Some []
      | c # cs \<Rightarrow>
          if c = DQUOTE \<or> c = SQUOTE
          then (case spanRest c cs of None \<Rightarrow> None | Some r \<Rightarrow> skipSpans r)
          else Some text)"
  by pat_completeness auto
termination
  by (relation "measure length") (auto dest: spanRest_shorter simp: less_Suc_eq)

declare skipSpans.simps [simp del]

text \<open>The escapes \<^verbatim>\<open>advanceOverText\<close> decodes without an exception: the character after
  the backslash is one of \<open>' " ? \ a b f n r t v\<close>, a decimal digit, \<open>o\<close> or \<open>O\<close>, or
  \<open>x\<close> or \<open>X\<close> with some character after it. A backslash that is the last character of
  the text is read as a backslash.\<close>

definition validEscape :: "char \<Rightarrow> bool" where
  "validEscape d =
     (d = SQUOTE \<or> d = DQUOTE \<or> d = CHR ''?'' \<or> d = BACKSLASH \<or> d = CHR ''a''
      \<or> d = CHR ''b'' \<or> d = CHR ''f'' \<or> d = CHR ''n'' \<or> d = CHR ''r'' \<or> d = CHR ''t''
      \<or> d = CHR ''v'' \<or> (d = CHR ''x'' \<or> d = CHR ''X'') \<or> (d = CHR ''o'' \<or> d = CHR ''O'')
      \<or> isDecDigit d)"

definition escapeOk :: "char \<Rightarrow> string \<Rightarrow> bool" where
  "escapeOk d ds = (validEscape d \<and> ((d = CHR ''x'' \<or> d = CHR ''X'') \<longrightarrow> ds \<noteq> []))"

text \<open>
  The escapes in the part of a text that one call reads. \<open>spanOk q str\<close>: the escapes of
  a span that was opened with \<open>q\<close>, up to its closing quote, or up to the end of \<open>str\<close>
  when the span is not closed. \<open>headOk str\<close>: the escape at the head of \<open>str\<close>, when the
  head is a backslash. \<open>scanOk str\<close>: the escapes of the quoted spans that \<open>str\<close> starts
  with, and the one at the head of the text after them.
\<close>

fun spanOk :: "char \<Rightarrow> string \<Rightarrow> bool" where
  "spanOk q [] = True"
| "spanOk q (c # cs) =
     (if c = BACKSLASH then (case cs of [] \<Rightarrow> True | d # ds \<Rightarrow> escapeOk d ds \<and> spanOk q ds)
      else if c = q then True
      else spanOk q cs)"

fun headOk :: "string \<Rightarrow> bool" where
  "headOk (c # d # ds) = (c = BACKSLASH \<longrightarrow> escapeOk d ds)"
| "headOk cs = True"

function scanOk :: "string \<Rightarrow> bool" where
  "scanOk str =
     (case str of
        [] \<Rightarrow> True
      | c # cs \<Rightarrow>
          if c = DQUOTE \<or> c = SQUOTE
          then spanOk c cs \<and> (case spanRest c cs of None \<Rightarrow> True | Some r \<Rightarrow> scanOk r)
          else headOk str)"
  by pat_completeness auto
termination
  by (relation "measure length") (auto dest: spanRest_shorter simp: less_Suc_eq)

declare scanOk.simps [simp del]

text \<open>A line with a double-quoted and a single-quoted span before a colon.\<close>

definition quotedExample :: string where
  "quotedExample = [DQUOTE] @ ''a:d'' @ [DQUOTE, SQUOTE] @ '','' @ [SQUOTE] @ '':x''"


section \<open>Properties of the symbol table\<close>

lemma findIfSymbol_find:
  "findIfSymbol' xs (header ident symbol) =
     (case List.find (collides ident symbol) xs of
        None \<Rightarrow> Inr ()
      | Some l \<Rightarrow> Inl (if translationUnitId (getLabelData l) = ident
                       then SymbolRedefined else ExportCollision))"
  by (induction xs) (auto simp: Let_def collides_def header_def)

lemma findSymbol_None_iff:
  "findSymbol' xs name ident = None \<longleftrightarrow>
     list_all (\<lambda>l. \<not> (BasicSymbol'.symbolName (getLabelData l) = name
        \<and> (translationUnitId (getLabelData l) = ident \<or> BasicSymbol'.isExport (getLabelData l)))) xs"
  by (induction xs) (auto simp: Let_def)

lemma findSymbol_append:
  "findSymbol' (xs @ ys) name ident =
     (case findSymbol' xs name ident of Some e \<Rightarrow> Some e | None \<Rightarrow> findSymbol' ys name ident)"
  by (induction xs) (auto simp: Let_def)

lemma find_None_hidden:
  assumes "List.find (collides ident symbol) xs = None"
    and "unit = ident \<or> SymbolToken.isExport symbol"
  shows "findSymbol' xs (SymbolToken.symbolName symbol) unit = None"
  using assms by (induction xs) (auto simp: Let_def collides_def split: if_splits)

lemma addJumpSymbol_eq:
  "addJumpSymbol' ident symbol T =
     (case List.find (collides ident symbol) (symbols' T) of
        None \<Rightarrow> (Inr (), T\<lparr>symbols' := symbols' T @
           [VJump \<lparr>translationUnitId = ident,
                    BasicSymbol'.symbolName = SymbolToken.symbolName symbol,
                    BasicSymbol'.isExport = SymbolToken.isExport symbol,
                    codeAddressOffset = codeAddressOffset' (addressResolver' T)\<rparr>]\<rparr>)
      | Some l \<Rightarrow> (Inl (if translationUnitId (getLabelData l) = ident
                       then SymbolRedefined else ExportCollision), T))"
  using findIfSymbol_find [of "symbols' T" ident symbol]
  by (simp add: addJumpSymbol'_def BasicSymbol'.truncate_def header_def getCodeAddressOffset_def
      split: option.splits)

lemma addDataSymbol_eq:
  "addDataSymbol' rgsb ident symbol T =
     (case List.find (collides ident symbol) (symbols' T) of
        None \<Rightarrow> (Inr (), T\<lparr>addressResolver' := updateOffsets_symbol rgsb symbol (addressResolver' T),
           symbols' := symbols' T @
           [VData \<lparr>translationUnitId = ident,
                    BasicSymbol'.symbolName = SymbolToken.symbolName symbol,
                    BasicSymbol'.isExport = SymbolToken.isExport symbol,
                    dataAddressOffset = dataAddressOffset' (addressResolver' T),
                    DataSymbol.sizeType = blockSizeCode symbol,
                    elementCount = of_nat (length (SymbolToken.init_value symbol))\<rparr>]\<rparr>)
      | Some l \<Rightarrow> (Inl (if translationUnitId (getLabelData l) = ident
                       then SymbolRedefined else ExportCollision), T))"
  using findIfSymbol_find [of "symbols' T" ident symbol]
  by (simp add: addDataSymbol'_def BasicSymbol'.truncate_def header_def getDataAddressOffset_def
      split: option.splits)

lemma addConstSymbol_eq:
  "addConstSymbol' ident symbol T =
     (case List.find (collides ident symbol) (symbols' T) of
        None \<Rightarrow> (Inr (), T\<lparr>symbols' := symbols' T @
           [VConst \<lparr>translationUnitId = ident,
                    BasicSymbol'.symbolName = SymbolToken.symbolName symbol,
                    BasicSymbol'.isExport = SymbolToken.isExport symbol,
                    ConstSymbol.sizeType = blockSizeCode symbol,
                    ConstSymbol.init_value = SymbolToken.init_value symbol\<rparr>]\<rparr>)
      | Some l \<Rightarrow> (Inl (if translationUnitId (getLabelData l) = ident
                       then SymbolRedefined else ExportCollision), T))"
  using findIfSymbol_find [of "symbols' T" ident symbol]
  by (simp add: addConstSymbol'_def BasicSymbol'.truncate_def header_def
      split: option.splits)

lemma addSymbol_fails:
  "List.find (collides ident symbol) (symbols' T) = Some l \<Longrightarrow>
     addSymbol rgsb ident symbol T =
       (Inl (if translationUnitId (getLabelData l) = ident
             then SymbolRedefined else ExportCollision), T)"
  by (cases "symbolType symbol")
    (simp_all add: addSymbol_def addJumpSymbol_eq addDataSymbol_eq addConstSymbol_eq)

lemma addSymbol_appends:
  "List.find (collides ident symbol) (symbols' T) = None \<Longrightarrow>
     fst (addSymbol rgsb ident symbol T) = Inr ()
     \<and> (\<exists>e. symbols' (snd (addSymbol rgsb ident symbol T)) = symbols' T @ [e]
            \<and> getLabelData e = header ident symbol)"
  by (cases "symbolType symbol")
    (simp_all add: addSymbol_def addJumpSymbol_eq addDataSymbol_eq addConstSymbol_eq
      BasicSymbol'.truncate_def header_def)

lemma addSymbol_symbols_grow:
  "\<exists>ys. symbols' (snd (addSymbol rgsb ident symbol T)) = symbols' T @ ys"
  by (cases "symbolType symbol"; cases "List.find (collides ident symbol) (symbols' T)")
    (simp_all add: addSymbol_def addJumpSymbol_eq addDataSymbol_eq addConstSymbol_eq)

lemma call_symbols_grow: "\<exists>ys. symbols' (call rgsb giw c T) = symbols' T @ ys"
  by (cases c) (simp_all add: addSymbol_symbols_grow setBaseAddress_def)

lemma calls_symbols_grow: "\<exists>ys. symbols' (calls rgsb giw cs T) = symbols' T @ ys"
proof (induction cs arbitrary: T)
  case Nil
  then show ?case by simp
next
  case (Cons c cs)
  obtain ys where 1: "symbols' (call rgsb giw c T) = symbols' T @ ys"
    using call_symbols_grow by blast
  obtain zs where 2: "symbols' (calls rgsb giw cs (call rgsb giw c T))
      = symbols' (call rgsb giw c T) @ zs"
    using Cons.IH by blast
  show ?case using 1 2 by simp
qed

text \<open>An entry that was inserted stays the one the lookup finds.\<close>

lemma inserted_entry_found:
  assumes ok: "fst (addSymbol rgsb ident symbol T) = Inr ()"
    and vis: "unit = ident \<or> SymbolToken.isExport symbol"
  shows "\<exists>e. symbols' (snd (addSymbol rgsb ident symbol T)) = symbols' T @ [e]
     \<and> findSymbol' (symbols' (calls rgsb giw cs (snd (addSymbol rgsb ident symbol T))))
          (SymbolToken.symbolName symbol) unit = Some e"
proof -
  have none: "List.find (collides ident symbol) (symbols' T) = None"
  proof (cases "List.find (collides ident symbol) (symbols' T)")
    case (Some l)
    then show ?thesis using ok addSymbol_fails [OF Some, of rgsb] by simp
  qed simp
  obtain e where e: "symbols' (snd (addSymbol rgsb ident symbol T)) = symbols' T @ [e]"
    and h: "getLabelData e = header ident symbol"
    using addSymbol_appends [OF none] by blast
  obtain ys where ys: "symbols' (calls rgsb giw cs (snd (addSymbol rgsb ident symbol T)))
      = (symbols' T @ [e]) @ ys"
    using calls_symbols_grow [of rgsb giw cs "snd (addSymbol rgsb ident symbol T)"] e by auto
  have "findSymbol' ((symbols' T @ [e]) @ ys) (SymbolToken.symbolName symbol) unit = Some e"
    using find_None_hidden [OF none vis] h vis
    by (auto simp: findSymbol_append header_def Let_def)
  then show ?thesis using e ys by simp
qed

lemmas table_eval =
  addSymbol_def addJumpSymbol'_def addDataSymbol'_def addConstSymbol'_def
  newSymbolTable_def newAddressResolver_def jumpToken_def wordToken_def instr_def
  BasicSymbol'.truncate_def Let_def getCodeAddressOffset_def getDataAddressOffset_def
  updateOffsets_symbol_def updateOffsets_instr_def setBaseAddress_def
  getSizeInBasic_def getInstrWidthInBasic_def NO_DATA_def ASCII_DATA_def
  SymbolRedefined_def ExportCollision_def resolveSymbol_def collides_def header_def


subsection \<open>C2: resolution identity\<close>

text \<open>
  Claim C2. A jump or data symbol is inserted by a call of \<^verbatim>\<open>addSymbol\<close> that succeeds in
  any table state \<open>T\<close>; any calls follow. For a unit the symbol is visible to (its own
  unit, or any unit when it is exported), \<^verbatim>\<open>resolveSymbol\<close> with indices 0 and 0 returns,
  for a jump symbol, the code offset the resolver held when the symbol was inserted, with
  no base address added; for a data symbol of \<open>k\<close> basic units per block, with the primary
  index \<open>p\<close> below the element count and the secondary index \<open>s\<close> below \<open>k\<close>, it returns
  the data base address plus the data offset the resolver held at the insertion plus
  \<open>k * p + s\<close>, in 64-bit arithmetic.
\<close>

theorem resolveSymbol_identity:
  assumes ok: "fst (addSymbol rgsb ident symbol T) = Inr ()"
    and vis: "unit = ident \<or> SymbolToken.isExport symbol"
    and later: "T' = calls rgsb giw cs (snd (addSymbol rgsb ident symbol T))"
  shows "(symbolType symbol = JUMP \<longrightarrow>
            resolveSymbol gsb T' unit (SymbolToken.symbolName symbol, 0, 0)
              = Inr (ucast (codeAddressOffset' (addressResolver' T))))
       \<and> (symbolType symbol = DATA
            \<and> p < of_nat (length (SymbolToken.init_value symbol))
            \<and> s < gsb (blockSizeCode symbol) \<longrightarrow>
            resolveSymbol gsb T' unit (SymbolToken.symbolName symbol, p, s)
              = Inr (dataBaseAddress' T' + ucast (dataAddressOffset' (addressResolver' T))
                     + gsb (blockSizeCode symbol) * p + s))"
proof -
  obtain e where e: "symbols' (snd (addSymbol rgsb ident symbol T)) = symbols' T @ [e]"
    and f: "findSymbol' (symbols' T') (SymbolToken.symbolName symbol) unit = Some e"
    using inserted_entry_found [OF ok vis, of giw cs] later by blast
  have none: "List.find (collides ident symbol) (symbols' T) = None"
  proof (cases "List.find (collides ident symbol) (symbols' T)")
    case (Some l)
    then show ?thesis using ok addSymbol_fails [OF Some, of rgsb] by simp
  qed simp
  have j: "symbolType symbol = JUMP \<Longrightarrow>
      e = VJump \<lparr>translationUnitId = ident,
                    BasicSymbol'.symbolName = SymbolToken.symbolName symbol,
                    BasicSymbol'.isExport = SymbolToken.isExport symbol,
                    codeAddressOffset = codeAddressOffset' (addressResolver' T)\<rparr>"
    using e none by (simp add: addSymbol_def addJumpSymbol_eq)
  have d: "symbolType symbol = DATA \<Longrightarrow>
      e = VData \<lparr>translationUnitId = ident,
                    BasicSymbol'.symbolName = SymbolToken.symbolName symbol,
                    BasicSymbol'.isExport = SymbolToken.isExport symbol,
                    dataAddressOffset = dataAddressOffset' (addressResolver' T),
                    DataSymbol.sizeType = blockSizeCode symbol,
                    elementCount = of_nat (length (SymbolToken.init_value symbol))\<rparr>"
    using e none by (simp add: addSymbol_def addDataSymbol_eq)
  show ?thesis
    using f j d by (auto simp: resolveSymbol_def)
qed

theorem resolveSymbol_identity_witness:
  "resolveSymbol getSizeInBasic
     (calls getSizeInBasic getInstrWidthInBasic
        [AddSymbol 0 (jumpToken ''start'' False), UpdateOffsets (instr 1),
         AddSymbol 0 (jumpToken ''loop'' False), UpdateOffsets (instr 6),
         SetBaseAddress 0x1000 0x2000]
        (newSymbolTable newAddressResolver))
     0 (''loop'', 0, 0) = Inr 1
   \<and> resolveSymbol getSizeInBasic
     (calls getSizeInBasic getInstrWidthInBasic
        [AddSymbol 0 (wordToken ''buf'' DATA 2 [1, 2, 3, 0]),
         AddSymbol 0 (wordToken ''x'' DATA 2 [0, 0]),
         SetBaseAddress 0x1000 0x2000]
        (newSymbolTable newAddressResolver))
     0 (''x'', 1, 0) = Inr 0x2005"
proof -
  let ?g = getSizeInBasic and ?w = getInstrWidthInBasic
  let ?T1 = "calls ?g ?w [AddSymbol 0 (jumpToken ''start'' False), UpdateOffsets (instr 1)]
               (newSymbolTable newAddressResolver)"
  let ?T2 = "calls ?g ?w [AddSymbol 0 (wordToken ''buf'' DATA 2 [1, 2, 3, 0])]
               (newSymbolTable newAddressResolver)"
  have a: "fst (addSymbol ?g 0 (jumpToken ''loop'' False) ?T1) = Inr ()"
    by (simp add: table_eval)
  have b: "fst (addSymbol ?g 0 (wordToken ''x'' DATA 2 [0, 0]) ?T2) = Inr ()"
    by (simp add: table_eval)
  have c1: "codeAddressOffset' (addressResolver' ?T1) = 1"
    by (simp add: table_eval)
  have c2: "dataAddressOffset' (addressResolver' ?T2) = 4"
    by (simp add: table_eval)
  have j: "symbolType (jumpToken ''loop'' False) = JUMP"
    "SymbolToken.symbolName (jumpToken ''loop'' False) = ''loop''"
    by (simp_all add: jumpToken_def)
  have d: "symbolType (wordToken ''x'' DATA 2 [0, 0]) = DATA"
    "SymbolToken.symbolName (wordToken ''x'' DATA 2 [0, 0]) = ''x''"
    "(1::size_t) < of_nat (length (SymbolToken.init_value (wordToken ''x'' DATA 2 [0, 0])))"
    "(0::size_t) < getSizeInBasic (blockSizeCode (wordToken ''x'' DATA 2 [0, 0]))"
    by (simp_all add: wordToken_def getSizeInBasic_def NO_DATA_def ASCII_DATA_def)
  have base: "dataBaseAddress'
     (calls ?g ?w [SetBaseAddress 0x1000 0x2000]
        (snd (addSymbol ?g 0 (wordToken ''x'' DATA 2 [0, 0]) ?T2))) = 0x2000"
    by (simp add: setBaseAddress_def)
  have sz: "getSizeInBasic (blockSizeCode (wordToken ''x'' DATA 2 [0, 0])) = 1"
    by (simp add: wordToken_def getSizeInBasic_def NO_DATA_def ASCII_DATA_def)
  from resolveSymbol_identity [OF a, of 0 _ ?w "[UpdateOffsets (instr 6), SetBaseAddress 0x1000 0x2000]" ?g,
      OF _ refl] j c1
  have 1: "resolveSymbol ?g
     (calls ?g ?w [UpdateOffsets (instr 6), SetBaseAddress 0x1000 0x2000]
        (snd (addSymbol ?g 0 (jumpToken ''loop'' False) ?T1))) 0 (''loop'', 0, 0) = Inr 1"
    by simp
  from resolveSymbol_identity [OF b, of 0 _ ?w "[SetBaseAddress 0x1000 0x2000]" ?g 1 0,
      OF _ refl] d c2 base sz
  have 2: "resolveSymbol ?g
     (calls ?g ?w [SetBaseAddress 0x1000 0x2000]
        (snd (addSymbol ?g 0 (wordToken ''x'' DATA 2 [0, 0]) ?T2))) 0 (''x'', 1, 0) = Inr 0x2005"
    by simp
  show ?thesis using 1 2 by simp
qed

subsection \<open>C3: constants\<close>

text \<open>
  Claim C3. For a const symbol that was inserted, of \<open>k\<close> basic units per block, and a
  reference to it with the primary index \<open>p\<close> below the number of initial values and the
  secondary index \<open>s\<close> below \<open>k\<close>, \<^verbatim>\<open>resolveSymbol\<close> returns the \<open>p\<close>-th initial value
  shifted right by \<open>k * s\<close> bits. The witness is scenario S5 of the specification.
\<close>

theorem resolveSymbol_const:
  assumes ok: "fst (addSymbol rgsb ident symbol T) = Inr ()"
    and const: "symbolType symbol = CONST'"
    and vis: "unit = ident \<or> SymbolToken.isExport symbol"
    and later: "T' = calls rgsb giw cs (snd (addSymbol rgsb ident symbol T))"
    and p: "p < of_nat (length (SymbolToken.init_value symbol))"
    and s: "s < gsb (blockSizeCode symbol)"
  shows "resolveSymbol gsb T' unit (SymbolToken.symbolName symbol, p, s)
           = Inr (drop_bit (unat (gsb (blockSizeCode symbol) * s))
                    (SymbolToken.init_value symbol ! unat p))"
proof -
  obtain e where e: "symbols' (snd (addSymbol rgsb ident symbol T)) = symbols' T @ [e]"
    and f: "findSymbol' (symbols' T') (SymbolToken.symbolName symbol) unit = Some e"
    using inserted_entry_found [OF ok vis, of giw cs] later by blast
  have none: "List.find (collides ident symbol) (symbols' T) = None"
  proof (cases "List.find (collides ident symbol) (symbols' T)")
    case (Some l)
    then show ?thesis using ok addSymbol_fails [OF Some, of rgsb] by simp
  qed simp
  have c: "e = VConst \<lparr>translationUnitId = ident,
                    BasicSymbol'.symbolName = SymbolToken.symbolName symbol,
                    BasicSymbol'.isExport = SymbolToken.isExport symbol,
                    ConstSymbol.sizeType = blockSizeCode symbol,
                    ConstSymbol.init_value = SymbolToken.init_value symbol\<rparr>"
    using e none const by (simp add: addSymbol_def addConstSymbol_eq)
  show ?thesis
    using f c p s by (simp add: resolveSymbol_def)
qed

theorem resolveSymbol_const_witness:
  "resolveSymbol getSizeInBasic
     (calls getSizeInBasic getInstrWidthInBasic
        [AddSymbol 0 (wordToken ''k'' CONST' 3 [0xAABBCCDD])]
        (newSymbolTable newAddressResolver))
     0 (''k'', 0, 1) = Inr 0x2AAEF337"
proof -
  let ?g = getSizeInBasic and ?w = getInstrWidthInBasic
  let ?k = "wordToken ''k'' CONST' 3 [0xAABBCCDD]"
  let ?T = "newSymbolTable newAddressResolver"
  have a: "fst (addSymbol ?g 0 ?k ?T) = Inr ()"
    by (simp add: table_eval)
  have k: "symbolType ?k = CONST'" "SymbolToken.symbolName ?k = ''k''"
    "SymbolToken.init_value ?k = [0xAABBCCDD]" "getSizeInBasic (blockSizeCode ?k) = 2"
    by (simp_all add: wordToken_def getSizeInBasic_def NO_DATA_def ASCII_DATA_def)
  have p: "(0::size_t) < of_nat (length (SymbolToken.init_value ?k))"
    and s: "(1::size_t) < getSizeInBasic (blockSizeCode ?k)"
    by (simp_all add: k)
  from resolveSymbol_const [where rgsb = ?g and gsb = ?g and giw = ?w and cs = "[]"
      and unit = 0 and T' = "snd (addSymbol ?g 0 ?k ?T)", OF a k(1) _ _ p s] k
  have "resolveSymbol ?g (snd (addSymbol ?g 0 ?k ?T)) 0 (''k'', 0, 1)
      = Inr (drop_bit 2 0xAABBCCDD)"
    by simp
  then show ?thesis by simp
qed

text \<open>
  With the sizes of the ISA binding the shift count is at most 12, so the C++ shift is
  always a defined one.
\<close>

lemma getSizeInBasic_shift_defined:
  "s < getSizeInBasic sz \<Longrightarrow> unat (getSizeInBasic sz * s) \<le> 12"
  apply (simp add: getSizeInBasic_def NO_DATA_def ASCII_DATA_def split: if_splits)
  apply (auto simp: word_less_nat_alt unat_word_ariths)
  done

subsection \<open>C4: rejected definitions\<close>

text \<open>
  Claim C4, as amended. \<^verbatim>\<open>addSymbol\<close> appends the new entry when no entry of the table
  collides with the definition. Otherwise it throws, and the first colliding entry, in
  the order of insertion, decides the error: the one of a redefinition when that entry is
  of the same unit, the one of an export collision when it is of another unit.
\<close>

theorem addSymbol_outcome:
  "(List.find (collides ident symbol) (symbols' T) = None \<longrightarrow>
      fst (addSymbol rgsb ident symbol T) = Inr ()
      \<and> (\<exists>e. symbols' (snd (addSymbol rgsb ident symbol T)) = symbols' T @ [e]
             \<and> getLabelData e = header ident symbol))
   \<and> (\<forall>l. List.find (collides ident symbol) (symbols' T) = Some l \<longrightarrow>
        fst (addSymbol rgsb ident symbol T)
          = Inl (if translationUnitId (getLabelData l) = ident
                 then SymbolRedefined else ExportCollision))"
  using addSymbol_appends [of ident symbol T rgsb] addSymbol_fails [of ident symbol T _ rgsb]
  by simp

theorem addSymbol_outcome_witness:
  "fst (addSymbol getSizeInBasic 1 (jumpToken ''n'' False)
          (calls getSizeInBasic getInstrWidthInBasic [AddSymbol 2 (jumpToken ''n'' False)]
             (newSymbolTable newAddressResolver))) = Inr ()
   \<and> fst (addSymbol getSizeInBasic 2 (jumpToken ''n'' False)
          (calls getSizeInBasic getInstrWidthInBasic [AddSymbol 2 (jumpToken ''n'' False)]
             (newSymbolTable newAddressResolver))) = Inl SymbolRedefined
   \<and> fst (addSymbol getSizeInBasic 1 (jumpToken ''n'' True)
          (calls getSizeInBasic getInstrWidthInBasic [AddSymbol 2 (jumpToken ''n'' False)]
             (newSymbolTable newAddressResolver))) = Inl ExportCollision"
proof -
  let ?g = getSizeInBasic
  let ?T = "calls ?g getInstrWidthInBasic [AddSymbol 2 (jumpToken ''n'' False)]
             (newSymbolTable newAddressResolver)"
  let ?e = "VJump \<lparr>translationUnitId = 2, BasicSymbol'.symbolName = ''n'',
      BasicSymbol'.isExport = False, codeAddressOffset = 0\<rparr>"
  have T: "symbols' ?T = [?e]"
    by (simp add: table_eval)
  have 1: "List.find (collides 1 (jumpToken ''n'' False)) (symbols' ?T) = None"
    by (simp add: T) (simp add: table_eval)
  have 2: "List.find (collides 2 (jumpToken ''n'' False)) (symbols' ?T) = Some ?e"
    by (simp add: T) (simp add: table_eval)
  have 3: "List.find (collides 1 (jumpToken ''n'' True)) (symbols' ?T) = Some ?e"
    by (simp add: T) (simp add: table_eval)
  have u: "translationUnitId (getLabelData ?e) = 2"
    by (simp add: BasicSymbol'.truncate_def)
  show ?thesis
    using addSymbol_outcome [of 1 "jumpToken ''n'' False" ?T ?g]
      addSymbol_outcome [of 2 "jumpToken ''n'' False" ?T ?g]
      addSymbol_outcome [of 1 "jumpToken ''n'' True" ?T ?g] 1 2 3 u
    by simp
qed

text \<open>
  The claim as stated asks for the error of a redefinition whenever an entry of the same
  name and unit exists. Units 1 and 2 each hold a local \<open>n\<close>; unit 2 then defines an
  exported \<open>n\<close>. An entry of that name and unit exists, and the call fails with the
  export message, as the entry of unit 1 stands first.
\<close>

theorem addSymbol_redefined_counterexample:
  "VJump \<lparr>translationUnitId = 2, BasicSymbol'.symbolName = ''n'',
      BasicSymbol'.isExport = False, codeAddressOffset = 0\<rparr>
     \<in> set (symbols' (calls getSizeInBasic getInstrWidthInBasic
          [AddSymbol 1 (jumpToken ''n'' False), AddSymbol 2 (jumpToken ''n'' False)]
          (newSymbolTable newAddressResolver)))
   \<and> fst (addSymbol getSizeInBasic 2 (jumpToken ''n'' True)
        (calls getSizeInBasic getInstrWidthInBasic
          [AddSymbol 1 (jumpToken ''n'' False), AddSymbol 2 (jumpToken ''n'' False)]
          (newSymbolTable newAddressResolver))) = Inl ExportCollision
   \<and> ExportCollision \<noteq> SymbolRedefined"
  by (simp add: table_eval)

subsection \<open>C10: a rejected definition changes nothing\<close>

text \<open>
  Claim C10. When \<^verbatim>\<open>addSymbol\<close> throws, the error is one of the two name collisions, and
  the table with its entries and the resolver with its two offsets are as they were before
  the call: the check comes before the resolver's data offset is advanced.
\<close>

theorem addSymbol_atomic:
  "fst (addSymbol rgsb ident symbol T) = Inl e \<Longrightarrow>
     (e = SymbolRedefined \<or> e = ExportCollision) \<and> snd (addSymbol rgsb ident symbol T) = T"
proof (cases "List.find (collides ident symbol) (symbols' T)")
  case None
  assume "fst (addSymbol rgsb ident symbol T) = Inl e"
  then show ?thesis using addSymbol_appends [OF None, of rgsb] by simp
next
  case (Some l)
  assume "fst (addSymbol rgsb ident symbol T) = Inl e"
  then show ?thesis using addSymbol_fails [OF Some, of rgsb] by auto
qed

theorem addSymbol_atomic_witness:
  "fst (addSymbol getSizeInBasic 0 (wordToken ''buf'' DATA 2 [7, 7])
        (calls getSizeInBasic getInstrWidthInBasic
          [AddSymbol 0 (wordToken ''buf'' DATA 2 [1, 2, 3, 0])]
          (newSymbolTable newAddressResolver))) = Inl SymbolRedefined
   \<and> snd (addSymbol getSizeInBasic 0 (wordToken ''buf'' DATA 2 [7, 7])
        (calls getSizeInBasic getInstrWidthInBasic
          [AddSymbol 0 (wordToken ''buf'' DATA 2 [1, 2, 3, 0])]
          (newSymbolTable newAddressResolver)))
     = calls getSizeInBasic getInstrWidthInBasic
          [AddSymbol 0 (wordToken ''buf'' DATA 2 [1, 2, 3, 0])]
          (newSymbolTable newAddressResolver)
   \<and> dataAddressOffset' (addressResolver'
        (snd (addSymbol getSizeInBasic 0 (wordToken ''buf'' DATA 2 [7, 7])
        (calls getSizeInBasic getInstrWidthInBasic
          [AddSymbol 0 (wordToken ''buf'' DATA 2 [1, 2, 3, 0])]
          (newSymbolTable newAddressResolver))))) = 4"
proof -
  let ?T = "calls getSizeInBasic getInstrWidthInBasic
          [AddSymbol 0 (wordToken ''buf'' DATA 2 [1, 2, 3, 0])]
          (newSymbolTable newAddressResolver)"
  have f: "fst (addSymbol getSizeInBasic 0 (wordToken ''buf'' DATA 2 [7, 7]) ?T)
      = Inl SymbolRedefined"
    by (simp add: table_eval)
  have o: "dataAddressOffset' (addressResolver' ?T) = 4"
    by (simp add: table_eval)
  show ?thesis
    using addSymbol_atomic [OF f] f o by simp
qed

section \<open>Properties of the lexical helpers\<close>

lemmas lex_eval =
  stripWhiteSpace_def find_first_not_of_def find_last_not_of_def find_first_of_def
  find_first_from_def find_last_def WHITESPACE_STRING_def string_view_of_literal_def
  npos_def substr_def convertNumberString_def convertEscapedString_def
  convertOctString_def convertHexString_def convertDecimalString_def convertBinaryString_def
  convertDirectTranslatableBaseString'_def DivideRoundUp_def nBitMask_def
  convertDigit'_def digitConverter_def hexDigitConverter_def charCode_def charOfByte_def
  validateHexString_def validateOctString_def validateDecString_def validateBinString_def
  valueBetweenInclusive_def BACKSLASH_def DQUOTE_def SQUOTE_def Let_def
  char_of_def bit_Suc_0_iff

subsection \<open>C5: the whitespace set\<close>

text \<open>
  Claim C5 (not met by the code). The claim has \<^verbatim>\<open>stripWhiteSpace\<close> trim space, tab,
  carriage return, line feed and NUL. The set the code trims holds the first four only,
  as the view of the literal ends at its first NUL: a line that is one NUL character comes
  back unchanged, and a NUL between spaces is kept.
\<close>

theorem stripWhiteSpace_keeps_NUL:
  "WHITESPACE_STRING = [CHR '' '', CHR 0x0A, CHR 0x09, CHR 0x0D]
   \<and> stripWhiteSpace [CHR 0x00] = [CHR 0x00]
   \<and> stripWhiteSpace [CHR '' '', CHR 0x00, CHR '' ''] = [CHR 0x00]"
  by (simp add: lex_eval)

subsection \<open>The number a string of digits denotes\<close>

text \<open>
  A digit that fits whole into the bits that are left is shifted into the value. A text of
  which every digit fits whole is read as the number its digits denote: a hexadecimal
  text of at most \<open>w / 4\<close> digits, an octal text of at most \<open>w / 3\<close> digits, a binary text
  of at most \<open>w\<close> digits, where \<open>w\<close> is the width of the integer; a decimal text is read
  modulo \<open>2 ^ w\<close>. The widths of the unsigned integer types are at most 64.
\<close>

lemma nBitMask_mask: "nBitMask n = mask n"
  by (simp add: nBitMask_def mask_eq_exp_minus_1)

lemma convertDirectLoop_whole:
  "0 < pbs \<Longrightarrow> length cs * pbs \<le> sz \<Longrightarrow>
     convertDirectLoop pbs cs (acc, sz, rcs, rcv)
       = (foldl (\<lambda>a c. push_bit pbs a OR (ucast (convertDigit' pbs c) AND nBitMask pbs)) acc cs,
          sz - length cs * pbs, rcs, rcv)"
proof (induction cs arbitrary: acc sz)
  case Nil
  then show ?case by simp
next
  case (Cons c cs)
  have 1: "0 < sz" "pbs \<le> sz" "length cs * pbs \<le> sz - pbs"
    using Cons.prems by (auto simp: algebra_simps)
  show ?case
    using Cons.IH [OF Cons.prems(1) 1(3)] 1 by (simp add: algebra_simps)
qed

lemma push_or_small:
  fixes a :: "'a::len word"
  shows "push_bit k a OR (d AND mask k) = a * 2 ^ k + (d AND mask k)"
proof -
  have "push_bit k a + (d AND mask k) = push_bit k a OR (d AND mask k)"
    by (rule disjunctive_add) (auto simp: bit_simps)
  then show ?thesis by (simp add: push_bit_eq_mult)
qed

lemma hexDigit_lt_16:
  assumes "valueBetweenInclusive c CHR ''0'' CHR ''9''
           \<or> valueBetweenInclusive c CHR ''a'' CHR ''f''
           \<or> valueBetweenInclusive c CHR ''A'' CHR ''F''"
  shows "unat (hexDigitConverter c) < 16"
proof -
  obtain n where n: "n = (of_char c :: nat)" by simp
  have "n < 256" unfolding n by simp
  show ?thesis
    using assms \<open>n < 256\<close>
    unfolding hexDigitConverter_def valueBetweenInclusive_def charCode_def n [symmetric]
    by (auto simp: unat_sub word_le_nat_alt unat_of_nat unat_word_ariths)
qed

lemma digit_in_word:
  fixes d :: "8 word"
  assumes "unat d < 2 ^ k"
  shows "(ucast d AND nBitMask k :: 'a::len word) = ucast d"
proof -
  have "(ucast d AND nBitMask k :: 'a word) = take_bit k (of_nat (unat d))"
    by (simp only: nBitMask_mask take_bit_eq_mask of_nat_unat)
  also have "\<dots> = of_nat (take_bit k (unat d))"
    by (simp only: of_nat_take_bit)
  also have "\<dots> = of_nat (unat d)"
    using assms by (simp only: take_bit_nat_eq_self)
  finally show ?thesis by (simp only: of_nat_unat)
qed

lemma whole_digits_value:
  assumes "list_all (\<lambda>c. unat (hexDigitConverter c) < 2 ^ pbs
                       \<and> convertDigit' pbs c = hexDigitConverter c) cs"
  shows "foldl (\<lambda>a c. push_bit pbs a OR (ucast (convertDigit' pbs c) AND nBitMask pbs))
           (of_nat acc :: 'a::len word) cs
         = of_nat (digitsValue (2 ^ pbs) cs acc)"
  using assms
proof (induction cs arbitrary: acc)
  case Nil
  then show ?case by simp
next
  case (Cons c cs)
  have d: "(ucast (convertDigit' pbs c) AND nBitMask pbs :: 'a word)
             = ucast (hexDigitConverter c)"
    using Cons.prems by (simp add: digit_in_word)
  have "push_bit pbs (of_nat acc) OR (ucast (convertDigit' pbs c) AND nBitMask pbs :: 'a word)
          = of_nat acc * 2 ^ pbs + ucast (hexDigitConverter c)"
    using push_or_small [of pbs "of_nat acc :: 'a word" "ucast (convertDigit' pbs c)"]
    unfolding nBitMask_mask [symmetric] d .
  also have "\<dots> = of_nat (2 ^ pbs * acc + unat (hexDigitConverter c))"
    by (simp add: mult.commute)
  finally have step:
    "push_bit pbs (of_nat acc) OR (ucast (convertDigit' pbs c) AND nBitMask pbs :: 'a word)
       = of_nat (2 ^ pbs * acc + unat (hexDigitConverter c))" .
  have rest: "list_all (\<lambda>c. unat (hexDigitConverter c) < 2 ^ pbs
                           \<and> convertDigit' pbs c = hexDigitConverter c) cs"
    using Cons.prems by simp
  show ?case
    unfolding foldl_Cons digitsValue.simps step by (rule Cons.IH [OF rest])
qed

lemma octDigit_lt_8:
  assumes "valueBetweenInclusive c CHR ''0'' CHR ''7''"
  shows "unat (hexDigitConverter c) < 8 \<and> digitConverter c = hexDigitConverter c"
proof -
  obtain n where n: "n = (of_char c :: nat)" by simp
  have "n < 256" unfolding n by simp
  show ?thesis
    using assms \<open>n < 256\<close>
    unfolding hexDigitConverter_def digitConverter_def valueBetweenInclusive_def charCode_def
      n [symmetric]
    by (auto simp: unat_sub word_le_nat_alt unat_of_nat unat_word_ariths)
qed

lemma whole_string:
  assumes "0 < pbs" "length s * pbs \<le> LENGTH('a)" "LENGTH('a) \<le> 64"
  shows "(fst (fst (convertDirectTranslatableBaseString' pbs s 0 0)) :: 'a::len word)
         = foldl (\<lambda>a c. push_bit pbs a OR (ucast (convertDigit' pbs c) AND nBitMask pbs)) 0 s"
proof -
  have a: "(LENGTH('a) + 2 ^ 64 - 0) mod 2 ^ 64 = LENGTH('a)"
    using assms(3) by simp
  have c: "DivideRoundUp (length s * pbs) pbs = length s"
    using assms(1) by (simp add: DivideRoundUp_def)
  show ?thesis
    unfolding convertDirectTranslatableBaseString'_def a Let_def
    using assms(1,2) by (simp add: c convertDirectLoop_whole)
qed

lemma convertHexString_value:
  assumes "validateHexString s" "4 * length s \<le> LENGTH('a)" "LENGTH('a) \<le> 64"
  shows "(convertHexString s :: 'a::len word) = of_nat (digitsValue 16 s 0)"
proof -
  have "list_all (\<lambda>c. unat (hexDigitConverter c) < 2 ^ 4
                    \<and> convertDigit' 4 c = hexDigitConverter c) s"
    using assms(1) unfolding validateHexString_def list_all_iff
    by (intro ballI conjI) (simp_all add: convertDigit'_def hexDigit_lt_16)
  from whole_digits_value [OF this, of 0, where 'a = 'a] show ?thesis
    using assms(2,3) by (simp add: convertHexString_def whole_string mult.commute)
qed

lemma convertOctString_value:
  assumes "validateOctString s" "3 * length s \<le> LENGTH('a)" "LENGTH('a) \<le> 64"
  shows "(convertOctString s :: 'a::len word) = of_nat (digitsValue 8 s 0)"
proof -
  have "list_all (\<lambda>c. unat (hexDigitConverter c) < 2 ^ 3
                    \<and> convertDigit' 3 c = hexDigitConverter c) s"
    using assms(1) unfolding validateOctString_def
    by (auto simp: list_all_iff convertDigit'_def dest: octDigit_lt_8)
  from whole_digits_value [OF this, of 0, where 'a = 'a] show ?thesis
    using assms(2,3) by (simp add: convertOctString_def whole_string mult.commute)
qed

lemma decDigit_value:
  assumes "valueBetweenInclusive c CHR ''0'' CHR ''9''"
  shows "(of_nat (of_char c) - of_nat (of_char CHR ''0'') :: 'a::len word)
         = of_nat (unat (hexDigitConverter c))"
proof -
  obtain n where n: "n = (of_char c :: nat)" by simp
  have "n < 256" unfolding n by simp
  have h: "unat (hexDigitConverter c) = n - 48"
    using assms \<open>n < 256\<close>
    unfolding hexDigitConverter_def valueBetweenInclusive_def charCode_def n [symmetric]
    by (auto simp: unat_sub word_le_nat_alt unat_of_nat)
  have "48 \<le> n"
    using assms unfolding valueBetweenInclusive_def n by simp
  then have "(of_nat n :: 'a word) = of_nat (n - 48) + 48"
    by (metis of_nat_add of_nat_numeral le_add_diff_inverse2)
  then show ?thesis
    unfolding h n [symmetric] by simp
qed

lemma convertDecimalLoop_value:
  assumes "validateDecString s"
  shows "convertDecimalLoop s (of_nat acc :: 'a::len word) = of_nat (digitsValue 10 s acc)"
  using assms
proof (induction s arbitrary: acc)
  case Nil
  then show ?case by simp
next
  case (Cons c cs)
  have d: "valueBetweenInclusive c CHR ''0'' CHR ''9''" and rest: "validateDecString cs"
    using Cons.prems by (simp_all add: validateDecString_def)
  have step: "(of_nat acc * 10 + (of_nat (of_char c) - of_nat (of_char CHR ''0'')) :: 'a word)
                = of_nat (10 * acc + unat (hexDigitConverter c))"
    unfolding decDigit_value [OF d] by (simp add: mult.commute)
  show ?case
    unfolding convertDecimalLoop.simps digitsValue.simps step by (rule Cons.IH [OF rest])
qed

lemma convertDecimalString_value:
  "validateDecString s \<Longrightarrow> (convertDecimalString s :: 'a::len word) = of_nat (digitsValue 10 s 0)"
  using convertDecimalLoop_value [of s 0, where 'a = 'a] by (simp add: convertDecimalString_def)

lemma convertBinaryLoop_value:
  assumes "validateBinString s"
  shows "convertBinaryLoop s (of_nat acc :: 'a::len word) = of_nat (digitsValue 2 s acc)"
  using assms
proof (induction s arbitrary: acc)
  case Nil
  then show ?case by simp
next
  case (Cons c cs)
  have d: "c = CHR ''0'' \<or> c = CHR ''1''" and rest: "validateBinString cs"
    using Cons.prems by (simp_all add: validateBinString_def)
  have "push_bit 1 (of_nat acc) OR (1 AND mask 1) = (of_nat acc * 2 ^ 1 + (1 AND mask 1) :: 'a word)"
    by (rule push_or_small)
  then have one: "push_bit 1 (of_nat acc) OR 1 = (of_nat (2 * acc + 1) :: 'a word)"
    by (simp add: mult.commute)
  have step: "(push_bit 1 (of_nat acc) OR (if c = CHR ''1'' then 1 else 0) :: 'a word)
                = of_nat (2 * acc + unat (hexDigitConverter c))"
    using d one
    by (auto simp: hexDigitConverter_def valueBetweenInclusive_def charCode_def push_bit_eq_mult
        mult.commute)
  show ?case
    unfolding convertBinaryLoop.simps digitsValue.simps step by (rule Cons.IH [OF rest])
qed

lemma convertBinaryString_value:
  assumes "validateBinString s" "length s \<le> LENGTH('a)"
  shows "(convertBinaryString s :: 'a::len word) = of_nat (digitsValue 2 s 0)"
  using convertBinaryLoop_value [OF assms(1), of 0, where 'a = 'a] assms(2)
  by (simp add: convertBinaryString_def min_def)

lemma convertNumberString_decimal:
  assumes "validateDecString s" "s \<noteq> []" "hd s = CHR ''0'' \<longrightarrow> s = ''0''"
  shows "(convertNumberString s :: error + 'a::len word) = Inr (of_nat (digitsValue 10 s 0))"
proof (cases "s = ''0''")
  case True
  then show ?thesis
    by (simp add: convertNumberString_def hexDigitConverter_def valueBetweenInclusive_def
        charCode_def)
next
  case False
  obtain c cs where s: "s = c # cs"
    using assms(2) by (cases s) auto
  have "valueBetweenInclusive c CHR ''0'' CHR ''9''"
    using assms(1) by (simp add: s validateDecString_def)
  then have "c \<noteq> CHR ''-''"
    by (auto simp: valueBetweenInclusive_def)
  moreover have "c \<noteq> CHR ''0''"
    using assms(3) False by (auto simp: s)
  ultimately show ?thesis
    using assms(1) convertDecimalString_value [OF assms(1), where 'a = 'a]
    by (simp add: convertNumberString_def s)
qed

lemma convertNumberString_hex:
  assumes "validateHexString s" "4 * length s \<le> LENGTH('a)" "LENGTH('a) \<le> 64"
  shows "(convertNumberString (CHR ''0'' # CHR ''x'' # s) :: error + 'a::len word)
         = Inr (of_nat (digitsValue 16 s 0))"
proof -
  have "take npos s = s"
    using assms(2,3) by (simp add: npos_def)
  then show ?thesis
    using assms(1) convertHexString_value [OF assms]
    by (simp add: convertNumberString_def substr_def)
qed

lemma convertNumberString_binary:
  assumes "validateBinString s" "length s \<le> LENGTH('a)" "LENGTH('a) \<le> 64"
  shows "(convertNumberString (CHR ''0'' # CHR ''b'' # s) :: error + 'a::len word)
         = Inr (of_nat (digitsValue 2 s 0))"
  using assms(1) convertBinaryString_value [OF assms(1,2)] assms(2,3)
  by (simp add: convertNumberString_def substr_def npos_def)

lemma convertNumberString_octal:
  assumes "validateOctString s" "3 * length s \<le> LENGTH('a)" "LENGTH('a) \<le> 64"
  shows "(convertNumberString (CHR ''0'' # s) :: error + 'a::len word)
         = Inr (of_nat (digitsValue 8 s 0))"
proof (cases s)
  case Nil
  then show ?thesis by (simp add: convertNumberString_def)
next
  case (Cons c cs)
  have "valueBetweenInclusive c CHR ''0'' CHR ''7''"
    using assms(1) by (simp add: Cons validateOctString_def)
  then have "c \<noteq> CHR ''x'' \<and> c \<noteq> CHR ''X'' \<and> c \<noteq> CHR ''b'' \<and> c \<noteq> CHR ''B''"
    by (auto simp: valueBetweenInclusive_def)
  then show ?thesis
    using assms(1) convertOctString_value [OF assms] assms(2,3)
    by (simp add: convertNumberString_def substr_def npos_def Cons)
qed

lemma convertDirectLoop_done:
  "convertDirectLoop pbs cs (r, 0, a, b) = (r, 0, a, b)"
  by (cases cs) simp_all

lemma convertDirectLoop_append:
  "convertDirectLoop pbs (xs @ ys) st = convertDirectLoop pbs ys (convertDirectLoop pbs xs st)"
proof (induction xs arbitrary: st)
  case Nil
  then show ?case by simp
next
  case (Cons x xs)
  obtain r sz a b where st: "st = (r, sz, a, b)"
    by (cases st) auto
  show ?case
    unfolding st by (simp add: Cons.IH Let_def convertDirectLoop_done)
qed

lemma carry_digit:
  fixes d :: "8 word"
  assumes "k < 3"
  shows "(ucast (ucast ((ucast d :: 'a::len word) AND mask 3) :: 8 word) AND mask k :: 'a word)
         = ucast d AND mask k"
  using assms by (intro bit_eqI) (auto simp: bit_simps)

lemma convertOctString_carry:
  assumes "3 * length s < LENGTH('a)" "LENGTH('a) < 3 * length s + 3" "LENGTH('a) \<le> 64"
  shows "(convertOctString (s @ [c]) :: 'a::len word)
         = ucast (digitConverter c) AND mask (LENGTH('a) - 3 * length s)"
proof -
  define k where "k = LENGTH('a) - 3 * length s"
  have k: "0 < k" "k < 3" "LENGTH('a) = length s * 3 + k"
    using assms(1,2) by (simp_all add: k_def)
  have a: "(LENGTH('a) + 2 ^ 64 - 0) mod 2 ^ 64 = LENGTH('a)"
    using assms(3) by simp
  have c: "DivideRoundUp LENGTH('a) 3 = length s + 1"
    using k by (simp add: DivideRoundUp_def)
  have w: "convertDirectLoop 3 s (0 :: 'a word, LENGTH('a), 0, 0)
             = (foldl (\<lambda>a c. push_bit 3 a OR (ucast (convertDigit' 3 c) AND nBitMask 3)) 0 s,
                k, 0, 0)"
    using k by (simp add: convertDirectLoop_whole)
  have z: "(if LENGTH('a) < length (s @ [c]) * 3 then LENGTH('a) else length (s @ [c]) * 3)
             = LENGTH('a)"
    using assms(2) by simp
  show ?thesis
    unfolding convertOctString_def convertDirectTranslatableBaseString'_def a z c Let_def
    using k(1,2)
    by (simp add: convertDirectLoop_append w nBitMask_mask k_def [symmetric] carry_digit
        convertDigit'_def Let_def)
qed

subsection \<open>C1: numbers written in octal\<close>

text \<open>
  Claim C1 (not met by the code). The octal digits \<open>1000000000000000000000\<close> denote
  \<open>2 ^ 63\<close>, which a 64-bit integer holds. With the prefix \<open>0\<close>, \<^verbatim>\<open>convertNumberString\<close>
  at 64 bits returns 0 for them, and 1 for the octal digits of \<open>2 ^ 64 - 1\<close>: of 22 octal
  digits the last one is read with one bit left, and the branch for it replaces the value
  read so far by that bit (lemma \<open>convertOctString_carry\<close>). The other texts of the claim
  are read as the claim says (lemmas \<open>convertNumberString_decimal\<close>,
  \<open>convertNumberString_hex\<close>, \<open>convertNumberString_binary\<close>, \<open>convertNumberString_octal\<close>).
\<close>

theorem convertNumberString_octal_2_63:
  "digitsValue 8 ''1000000000000000000000'' 0 = 2 ^ 63
   \<and> (convertNumberString ''01000000000000000000000'' :: error + 64 word) = Inr 0
   \<and> digitsValue 8 ''1777777777777777777777'' 0 = 2 ^ 64 - 1
   \<and> (convertNumberString ''01777777777777777777777'' :: error + 64 word) = Inr 1"
  by (simp add: lex_eval)

subsection \<open>Characters written as numeric escapes\<close>

text \<open>
  A decimal escape, a hexadecimal escape of at most two digits and an octal escape of at
  most two digits decode to the character of the code they denote. Of three octal digits
  the last is read with two bits left; the escape decodes to the two lowest bits of that
  digit.
\<close>

lemma convertEscapedString_decimal_value:
  assumes "validateDecString s" "s \<noteq> []"
  shows "convertEscapedString (BACKSLASH # s) = Inr (charOfByte (of_nat (digitsValue 10 s 0)))"
proof -
  obtain c cs where s: "s = c # cs"
    using assms(2) by (cases s) auto
  have "valueBetweenInclusive c CHR ''0'' CHR ''9''"
    using assms(1) by (simp add: s validateDecString_def)
  then have "c \<notin> {SQUOTE, DQUOTE, CHR ''?'', BACKSLASH, CHR ''a'', CHR ''b'', CHR ''f'', CHR ''n'',
                  CHR ''r'', CHR ''t'', CHR ''v'', CHR ''x'', CHR ''X'', CHR ''o'', CHR ''O''}"
    by (auto simp: valueBetweenInclusive_def SQUOTE_def DQUOTE_def BACKSLASH_def)
  then show ?thesis
    using assms(1) convertDecimalString_value [OF assms(1), where 'a = 8]
    by (simp add: convertEscapedString_def s)
qed

lemma convertEscapedString_hex_value:
  assumes "validateHexString s" "length s \<le> 2"
  shows "convertEscapedString (BACKSLASH # CHR ''x'' # s)
         = Inr (charOfByte (of_nat (digitsValue 16 s 0)))"
  using assms convertHexString_value [of s, where 'a = 8]
  by (simp add: convertEscapedString_def SQUOTE_def DQUOTE_def BACKSLASH_def)

lemma convertEscapedString_octal_value:
  assumes "validateOctString s" "length s \<le> 2"
  shows "convertEscapedString (BACKSLASH # CHR ''o'' # s)
         = Inr (charOfByte (of_nat (digitsValue 8 s 0)))"
  using assms convertOctString_value [of s, where 'a = 8]
  by (simp add: convertEscapedString_def SQUOTE_def DQUOTE_def BACKSLASH_def)

lemma convertEscapedString_octal_three:
  assumes "validateOctString [a, b, c]"
  shows "convertEscapedString (BACKSLASH # CHR ''o'' # [a, b, c])
         = Inr (charOfByte (digitConverter c AND 3))"
  using assms convertOctString_carry [of "[a, b]" c, where 'a = 8]
  by (simp add: convertEscapedString_def SQUOTE_def DQUOTE_def BACKSLASH_def mask_eq_exp_minus_1)

subsection \<open>C6: characters written as octal escapes\<close>

text \<open>
  Claim C6 (not met by the code). The character of code 64 decodes from its decimal and
  from its hexadecimal escape; its octal escape, \<open>\o100\<close>, decodes to the character of
  code 0. The conversion is the one of claim C1, at 8 bits: of three octal digits the last
  is read with two bits left (lemma \<open>convertEscapedString_octal_three\<close>).
\<close>

theorem convertEscapedString_octal_64:
  "convertEscapedString (BACKSLASH # ''64'') = Inr (char_of (64 :: nat))
   \<and> convertEscapedString (BACKSLASH # ''x40'') = Inr (char_of (64 :: nat))
   \<and> digitsValue 8 ''100'' 0 = 64
   \<and> convertEscapedString (BACKSLASH # ''o100'') = Inr (char_of (0 :: nat))"
  by (simp add: lex_eval)

section \<open>Properties of the instruction encoder\<close>

text \<open>
  A field of fewer than 64 bits: \<^verbatim>\<open>load\<close> writes the low bits of the value into the bits
  of the field that lie inside the bit vector, and leaves every other bit.
\<close>

lemma load_one_field:
  fixes d :: "'w::len word"
  assumes "unat sz < 64"
  shows "\<exists>d'. load [\<lparr>offset = off, size' = sz\<rparr>] [v] d = Inr d'
           \<and> (\<forall>i < LENGTH('w).
                 bit d' i = (if unat off \<le> i \<and> i < unat off + unat sz
                             then bit v (i - unat off) else bit d i))"
proof -
  let ?d' = "d AND NOT (push_bit (unat off) (ucast (mask (unat sz) :: 64 word)))
               OR push_bit (unat off) (ucast (v AND (mask (unat sz) :: 64 word)))"
  have "load [\<lparr>offset = off, size' = sz\<rparr>] [v] d = Inr ?d'"
    using assms by (simp add: load_def loadField_def nBitMask_mask bitset_of_ullong_def Let_def)
  moreover have "bit ?d' i = (if unat off \<le> i \<and> i < unat off + unat sz
                               then bit v (i - unat off) else bit d i)"
    if "i < LENGTH('w)" for i
    using that assms by (auto simp: bit_simps)
  ultimately show ?thesis by blast
qed

subsection \<open>C9: a field that was loaded\<close>

text \<open>
  Claim C9 (not met by the code). A field of 64 bits at offset 0 of a bit vector of 64
  bits lies inside the bit vector, and the claim has \<^verbatim>\<open>access\<close> return the value loaded
  into it. \<^verbatim>\<open>load\<close> computes the mask of the field by a shift of a 64-bit integer by 64,
  which has no defined result; so it is for every size from 64 on. \<^verbatim>\<open>access\<close> is not well
  formed for any field.
\<close>

theorem load_full_width_field:
  "load [\<lparr>offset = 0, size' = 64\<rparr>] [0xFFFFFFFFFFFFFFFF] (0 :: 64 word)
     = Inl (UndefinedBehaviour ''shift count not below the width of the type'')"
  by (simp add: load_def loadField_def)

section \<open>Properties of the tokeniser\<close>

lemma parseInitLoop_ok:
  assumes "mn \<le> length iv"
    and "\<forall>j. i \<le> j \<and> j < mn \<longrightarrow> convertNumberString (stripWhiteSpace (sd ! j)) = Inr (vals ! j)"
  shows "\<exists>iv'. parseInitLoop i mn sd iv = Inr iv' \<and> length iv' = length iv
           \<and> (\<forall>j < length iv. iv' ! j = (if i \<le> j \<and> j < mn then vals ! j else iv ! j))"
  using assms
proof (induction i mn sd iv rule: parseInitLoop.induct)
  case (1 i mn splitData iv)
  show ?case
  proof (cases "i < mn")
    case False
    then show ?thesis by (subst parseInitLoop.simps) auto
  next
    case True
    have p: "convertNumberString (stripWhiteSpace (splitData ! i)) = Inr (vals ! i)"
      using True "1.prems"(2) by simp
    have "\<exists>iv'. parseInitLoop (i + 1) mn splitData (iv[i := vals ! i]) = Inr iv'
        \<and> length iv' = length (iv[i := vals ! i])
        \<and> (\<forall>j < length (iv[i := vals ! i]).
              iv' ! j = (if i + 1 \<le> j \<and> j < mn then vals ! j else (iv[i := vals ! i]) ! j))"
      using "1.IH" [OF True p] "1.prems" by simp
    then obtain iv' where iv': "parseInitLoop (i + 1) mn splitData (iv[i := vals ! i]) = Inr iv'"
      "length iv' = length iv"
      "\<forall>j < length iv. iv' ! j = (if i + 1 \<le> j \<and> j < mn then vals ! j
                                     else (iv[i := vals ! i]) ! j)"
      by auto
    have "parseInitLoop i mn splitData iv = Inr iv'"
      using iv'(1) by (subst parseInitLoop.simps) (simp add: True p)
    moreover have "\<forall>j < length iv. iv' ! j = (if i \<le> j \<and> j < mn then vals ! j else iv ! j)"
    proof (intro allI impI)
      fix j assume j: "j < length iv"
      show "iv' ! j = (if i \<le> j \<and> j < mn then vals ! j else iv ! j)"
      proof (cases "j = i")
        case True
        then show ?thesis using iv'(3) j \<open>i < mn\<close> by simp
      next
        case False
        then show ?thesis using iv'(3) j by (auto simp: nth_list_update)
      qed
    qed
    ultimately show ?thesis using iv'(2) by blast
  qed
qed

lemma zeroInitLoop_ok:
  "length (zeroInitLoop i iv) = length iv
   \<and> (\<forall>j < length iv. zeroInitLoop i iv ! j = (if i \<le> j then 0 else iv ! j))"
proof (induction i iv rule: zeroInitLoop.induct)
  case (1 i iv)
  show ?case
  proof (cases "i < length iv")
    case False
    then show ?thesis by (subst (1 2) zeroInitLoop.simps) auto
  next
    case True
    have e: "zeroInitLoop i iv = zeroInitLoop (i + 1) (iv[i := 0])"
      by (subst zeroInitLoop.simps) (simp add: True)
    show ?thesis
      using "1.IH" [OF True] by (auto simp: e nth_list_update)
  qed
qed

lemma tokenizeSizeSwitch_init_value:
  "tokenizeSizeSwitch rs line cursor tok = Inr (tok', cursor')
     \<Longrightarrow> SymbolToken.init_value tok' = SymbolToken.init_value tok"
  by (auto simp: tokenizeSizeSwitch_def Let_def split: if_splits sum.splits)

lemma tokenizeSymbolHeader_init_value:
  "tokenizeSymbolHeader rs line cursor tok = Inr (tok', cursor', returned)
     \<Longrightarrow> SymbolToken.init_value tok' = SymbolToken.init_value tok"
  by (auto simp: tokenizeSymbolHeader_def Let_def
      split: if_splits sum.splits dest!: tokenizeSizeSwitch_init_value)

lemma numeric_init_values:
  assumes numeric: "blockSizeCode tok \<noteq> ASCII_DATA"
    and iv: "SymbolToken.init_value tok = replicate k 0"
    and pieces: "pieces = (if invalidCursor line c2 then []
                            else splitUsingDelimiterList (substr line c2 npos) [CHR '',''])"
    and const: "symbolType tok = CONST' \<longrightarrow> \<not> invalidCursor line c2"
    and parsed: "\<forall>i < min k (length pieces).
                   convertNumberString (stripWhiteSpace (pieces ! i)) = Inr (vals ! i)"
  shows "\<exists>iv'. tokenizeInitialValues line c2 tok
             = Inr (tok\<lparr>SymbolToken.init_value := iv'\<rparr>, c2)
           \<and> length iv' = k
           \<and> (\<forall>i < min k (length pieces). iv' ! i = vals ! i)
           \<and> (\<forall>i. min k (length pieces) \<le> i \<and> i < k \<longrightarrow> iv' ! i = 0)"
proof (cases "invalidCursor line c2")
  case True
  then have "tokenizeInitialValues line c2 tok
      = Inr (tok\<lparr>SymbolToken.init_value := replicate k 0\<rparr>, c2)"
    using numeric const iv by (simp add: tokenizeInitialValues_def)
  then show ?thesis using True pieces by auto
next
  case False
  let ?mn = "min k (length pieces)"
  have sp: "splitUsingDelimiterList (substr line c2 npos) [CHR '',''] = pieces"
    using False pieces by simp
  obtain iv1 where iv1: "parseInitLoop 0 ?mn pieces (replicate k 0) = Inr iv1"
    "length iv1 = k"
    "\<forall>j < k. iv1 ! j = (if j < ?mn then vals ! j else 0)"
    using parseInitLoop_ok [of ?mn "replicate k 0" 0 pieces vals] parsed by auto
  let ?iv' = "zeroInitLoop ?mn iv1"
  have z: "length ?iv' = k" "\<forall>j < k. ?iv' ! j = (if ?mn \<le> j then 0 else iv1 ! j)"
    using zeroInitLoop_ok [of ?mn iv1] iv1(2) by auto
  have "tokenizeInitialValues line c2 tok = Inr (tok\<lparr>SymbolToken.init_value := ?iv'\<rparr>, c2)"
    using False numeric iv iv1(1) by (simp add: tokenizeInitialValues_def sp Let_def)
  moreover have "\<forall>i < ?mn. ?iv' ! i = vals ! i"
    using z(2) iv1(3) by auto
  moreover have "\<forall>i. ?mn \<le> i \<and> i < k \<longrightarrow> ?iv' ! i = 0"
    using z(2) by auto
  ultimately show ?thesis using z(1) by blast
qed

lemmas tok_eval =
  tokenizeSymbolHeader_def tokenizeSizeSwitch_def validateSymbolName'_def advanceCursor_def
  advanceOverWhiteSpace_def invalidCursor_def isExactSubstr_def EXPORT_SWITCH_def
  DATA_SWITCH_def CONST_SWITCH_def ASCII_SWITCH_def ASCII_DATA_def resolveSize_def
  sizeTypes_def emptySymbolToken_def splitUsingDelimiterList_def extractTillDelimiter_def
  splitByLast.simps

subsection \<open>C8: numeric initialisers\<close>

text \<open>
  Claim C8, as amended. A symbol definition is tokenised whose first stage ends at the
  element count of a numeric data or const symbol; the text in the brackets is the number
  \<open>n\<close>; after it the line ends (a data symbol only) or the initialiser follows, which
  splits at the commas into \<open>m\<close> pieces, of which the first \<open>min n m\<close> are number
  literals. When \<open>n\<close> is more than \<^verbatim>\<open>max_size()\<close>, \<^verbatim>\<open>tokenizeSymbol_\<close> throws
  \<^verbatim>\<open>std::length_error\<close>, and \<^verbatim>\<open>std::bad_alloc\<close> when the vector cannot grow to \<open>n\<close>
  values. Otherwise \<^verbatim>\<open>tokenizeSymbol_\<close> succeeds; the token's \<^verbatim>\<open>init_value\<close> has length
  \<open>n\<close>; its first \<open>min n m\<close> entries are the values of those literals, in order; the
  entries after them are 0; the pieces from the \<open>n\<close>-th on are not read, whatever they
  are; and the entry that \<^verbatim>\<open>addSymbol\<close> creates from the token of a data symbol has the
  element count \<open>n\<close>, the length of \<^verbatim>\<open>init_value\<close>.
\<close>

theorem numeric_initialisers:
  fixes n :: size_t
  assumes header: "tokenizeSymbolHeader rs line cursor0 tok0 = Inr (tok4, cursor4, False)"
    and numeric: "blockSizeCode tok4 \<noteq> ASCII_DATA"
    and fresh: "SymbolToken.init_value tok0 = []"
    and bracket: "cursor4 < length line" "line ! cursor4 = CHR ''[''"
    and c1: "c1 = advanceCursor line cursor4 1"
    and e: "e = find_first_from (\<lambda>c. c = CHR '']'') line c1" "e \<noteq> npos"
    and count: "convertNumberString (substr line c1 (e - c1)) = Inr n"
    and c2: "c2 = advanceCursor line (e + 1) 0"
    and pieces: "pieces = (if invalidCursor line c2 then []
                            else splitUsingDelimiterList (substr line c2 npos) [CHR '',''])"
    and const: "symbolType tok4 = CONST' \<longrightarrow> \<not> invalidCursor line c2"
    and parsed: "\<forall>i < min (unat n) (length pieces).
                   convertNumberString (stripWhiteSpace (pieces ! i)) = Inr (vals ! i)"
  shows "(maxSize < unat n \<longrightarrow>
            tokenizeSymbol' maxSize memory rs line cursor0 tok0 = Inl LengthError)
       \<and> (unat n \<le> maxSize \<and> memory < unat n \<longrightarrow>
            tokenizeSymbol' maxSize memory rs line cursor0 tok0 = Inl BadAlloc)
       \<and> (unat n \<le> maxSize \<and> unat n \<le> memory \<longrightarrow>
            (\<exists>tok c. tokenizeSymbol' maxSize memory rs line cursor0 tok0 = Inr (tok, c)
               \<and> length (SymbolToken.init_value tok) = unat n
               \<and> (\<forall>i < min (unat n) (length pieces). SymbolToken.init_value tok ! i = vals ! i)
               \<and> (\<forall>i. min (unat n) (length pieces) \<le> i \<and> i < unat n
                      \<longrightarrow> SymbolToken.init_value tok ! i = 0)
               \<and> (\<forall>rgsb ident T.
                      symbolType tok = DATA \<and> fst (addSymbol rgsb ident tok T) = Inr () \<longrightarrow>
                      (\<exists>d. symbols' (snd (addSymbol rgsb ident tok T)) = symbols' T @ [VData d]
                          \<and> elementCount d = of_nat (length (SymbolToken.init_value tok))
                          \<and> elementCount d = n))))"
proof -
  have iv4: "SymbolToken.init_value tok4 = []"
    using tokenizeSymbolHeader_init_value [OF header] fresh by simp
  have ec: "tokenizeElementCount maxSize memory line cursor4 tok4
      = (case resize maxSize memory (unat n) [] of
           Inl err \<Rightarrow> Inl err
         | Inr iv \<Rightarrow> Inr (tok4\<lparr>SymbolToken.init_value := iv\<rparr>, c2))"
    using numeric bracket e count iv4 unfolding c1 c2
    by (simp add: tokenizeElementCount_def invalidCursor_def Let_def split: sum.splits)
  have sym: "tokenizeSymbol' maxSize memory rs line cursor0 tok0
      = (case resize maxSize memory (unat n) [] of
           Inl err \<Rightarrow> Inl err
         | Inr iv \<Rightarrow> tokenizeInitialValues line c2 (tok4\<lparr>SymbolToken.init_value := iv\<rparr>))"
    by (simp add: tokenizeSymbol'_def header ec split: sum.splits)
  have long: "tokenizeSymbol' maxSize memory rs line cursor0 tok0 = Inl LengthError"
    if "maxSize < unat n"
    using that by (simp add: sym resize_def)
  have alloc: "tokenizeSymbol' maxSize memory rs line cursor0 tok0 = Inl BadAlloc"
    if "unat n \<le> maxSize" "memory < unat n"
    using that by (simp add: sym resize_def)
  have fits: "\<exists>tok c. tokenizeSymbol' maxSize memory rs line cursor0 tok0 = Inr (tok, c)
               \<and> length (SymbolToken.init_value tok) = unat n
               \<and> (\<forall>i < min (unat n) (length pieces). SymbolToken.init_value tok ! i = vals ! i)
               \<and> (\<forall>i. min (unat n) (length pieces) \<le> i \<and> i < unat n
                      \<longrightarrow> SymbolToken.init_value tok ! i = 0)
               \<and> (\<forall>rgsb ident T.
                      symbolType tok = DATA \<and> fst (addSymbol rgsb ident tok T) = Inr () \<longrightarrow>
                      (\<exists>d. symbols' (snd (addSymbol rgsb ident tok T)) = symbols' T @ [VData d]
                          \<and> elementCount d = of_nat (length (SymbolToken.init_value tok))
                          \<and> elementCount d = n))"
    if room: "unat n \<le> maxSize" "unat n \<le> memory"
  proof -
    let ?tok5 = "tok4\<lparr>SymbolToken.init_value := replicate (unat n) 0\<rparr>"
    have r: "resize maxSize memory (unat n) [] = Inr (replicate (unat n) 0)"
      using room by (simp add: resize_def)
    have "blockSizeCode ?tok5 \<noteq> ASCII_DATA"
      "SymbolToken.init_value ?tok5 = replicate (unat n) 0"
      "symbolType ?tok5 = CONST' \<longrightarrow> \<not> invalidCursor line c2"
      using numeric const by simp_all
    from numeric_init_values [OF this(1,2) pieces this(3) parsed]
    obtain iv' where iv': "tokenizeInitialValues line c2 ?tok5
               = Inr (?tok5\<lparr>SymbolToken.init_value := iv'\<rparr>, c2)"
      "length iv' = unat n"
      "\<forall>i < min (unat n) (length pieces). iv' ! i = vals ! i"
      "\<forall>i. min (unat n) (length pieces) \<le> i \<and> i < unat n \<longrightarrow> iv' ! i = 0"
      by blast
    let ?tok = "?tok5\<lparr>SymbolToken.init_value := iv'\<rparr>"
    have t: "tokenizeSymbol' maxSize memory rs line cursor0 tok0 = Inr (?tok, c2)"
      by (simp add: sym r iv'(1))
    have table: "\<exists>d. symbols' (snd (addSymbol rgsb ident ?tok T)) = symbols' T @ [VData d]
                        \<and> elementCount d = of_nat (length (SymbolToken.init_value ?tok))
                        \<and> elementCount d = n"
      if "symbolType ?tok = DATA" "fst (addSymbol rgsb ident ?tok T) = Inr ()" for rgsb ident T
    proof (cases "List.find (collides ident ?tok) (symbols' T)")
      case None
      then show ?thesis
        using that(1) iv'(2) by (simp add: addSymbol_def addDataSymbol_eq)
    next
      case (Some l)
      then show ?thesis
        using that(2) addSymbol_fails [OF Some, of rgsb] by simp
    qed
    show ?thesis
      using t iv'(2,3,4) table by (intro exI [of _ ?tok] exI [of _ c2]) auto
  qed
  show ?thesis
    using long alloc fits by blast
qed

theorem numeric_initialisers_witness:
  "\<exists>tok c. tokenizeSymbol' (2 ^ 60 - 1) 1024 resolveSize lineS3 3 emptySymbolToken = Inr (tok, c)
     \<and> length (SymbolToken.init_value tok) = 4
     \<and> SymbolToken.init_value tok ! 0 = 1 \<and> SymbolToken.init_value tok ! 1 = 2
     \<and> SymbolToken.init_value tok ! 2 = 3 \<and> SymbolToken.init_value tok ! 3 = 0"
proof -
  let ?tok4 = "\<lparr>SymbolToken.symbolName = ''buf'', SymbolToken.isExport = False,
      symbolType = DATA, blockSizeCode = 2, SymbolToken.init_value = []\<rparr>"
  have header: "tokenizeSymbolHeader resolveSize lineS3 3 emptySymbolToken
      = Inr (?tok4, 17, False)"
    by (simp add: lineS3_def tok_eval lex_eval)
  have numeric: "blockSizeCode ?tok4 \<noteq> ASCII_DATA"
    by (simp add: ASCII_DATA_def)
  have fresh: "SymbolToken.init_value emptySymbolToken = []"
    by (simp add: emptySymbolToken_def)
  have bracket: "17 < length lineS3" "lineS3 ! 17 = CHR ''[''"
    by (simp_all add: lineS3_def)
  have c1: "18 = advanceCursor lineS3 17 1"
    by (simp add: lineS3_def tok_eval lex_eval)
  have e: "19 = find_first_from (\<lambda>c. c = CHR '']'') lineS3 18" "19 \<noteq> npos"
    by (simp_all add: lineS3_def lex_eval)
  have count: "convertNumberString (substr lineS3 18 (19 - 18)) = Inr (4 :: size_t)"
    by (simp add: lineS3_def lex_eval)
  have c2: "21 = advanceCursor lineS3 (19 + 1) 0"
    by (simp add: lineS3_def tok_eval lex_eval)
  have pieces: "[''1'', ''2'', ''3''] = (if invalidCursor lineS3 21 then []
      else splitUsingDelimiterList (substr lineS3 21 npos) [CHR '',''])"
    by (simp add: lineS3_def tok_eval lex_eval)
  have const: "symbolType ?tok4 = CONST' \<longrightarrow> \<not> invalidCursor lineS3 21"
    by simp
  have parsed: "\<forall>i < min (unat (4 :: size_t)) (length [''1'', ''2'', ''3'']).
      convertNumberString (stripWhiteSpace ([''1'', ''2'', ''3''] ! i))
        = Inr ([1, 2, 3 :: LargestType] ! i)"
    by (simp add: lex_eval less_Suc_eq numeral_3_eq_3)
  have room: "unat (4 :: size_t) \<le> 2 ^ 60 - 1 \<and> unat (4 :: size_t) \<le> 1024"
    by simp
  from numeric_initialisers [OF header numeric fresh bracket c1 e count c2 pieces const parsed,
      of "2 ^ 60 - 1" 1024] room
  obtain tok c where t:
    "tokenizeSymbol' (2 ^ 60 - 1) 1024 resolveSize lineS3 3 emptySymbolToken = Inr (tok, c)"
    "length (SymbolToken.init_value tok) = 4"
    "\<forall>i < 3. SymbolToken.init_value tok ! i = [1, 2, 3] ! i"
    "\<forall>i. 3 \<le> i \<and> i < 4 \<longrightarrow> SymbolToken.init_value tok ! i = 0"
    by auto
  have "SymbolToken.init_value tok ! 0 = 1" "SymbolToken.init_value tok ! 1 = 2"
    "SymbolToken.init_value tok ! 2 = 3"
    using t(3) [rule_format, of 0] t(3) [rule_format, of 1] t(3) [rule_format, of 2]
    by simp_all
  moreover have "SymbolToken.init_value tok ! 3 = 0"
    using t(4) by simp
  ultimately show ?thesis using t(1,2) by blast
qed

text \<open>
  The claim as stated is for every element count. The count \<open>-1\<close> is read as
  \<open>2 ^ 64 - 1\<close>, more than a vector of 64-bit values can hold under any implementation:
  \<^verbatim>\<open>resize\<close> throws \<^verbatim>\<open>std::length_error\<close> and no token is produced. The bounds are those
  of libstdc++ (\<open>2 ^ 60 - 1\<close>) and of libc++ (\<open>2 ^ 61 - 1\<close>).
\<close>

theorem numeric_initialisers_counterexample:
  "(convertNumberString ''-1'' :: error + size_t) = Inr (- 1)
   \<and> tokenizeSymbol' (2 ^ 60 - 1) 1024 resolveSize lineHuge 1 emptySymbolToken
       = Inl LengthError
   \<and> tokenizeSymbol' (2 ^ 61 - 1) 1024 resolveSize lineHuge 1 emptySymbolToken
       = Inl LengthError"
proof -
  have n: "(convertNumberString ''-1'' :: error + size_t) = Inr (- 1)"
    by (simp add: lex_eval)
  have header: "tokenizeSymbolHeader resolveSize lineHuge (Suc 0) emptySymbolToken
      = Inr (\<lparr>SymbolToken.symbolName = ''e'', SymbolToken.isExport = False,
               symbolType = DATA, blockSizeCode = 2, SymbolToken.init_value = []\<rparr>, 15, False)"
    by (simp add: lineHuge_def tok_eval lex_eval)
  have c: "advanceCursor lineHuge 15 (Suc 0) = 16"
    "find_first_from (\<lambda>c. c = CHR '']'') lineHuge 16 = 18"
    "substr lineHuge 16 2 = ''-1''" "\<not> length lineHuge \<le> 15" "lineHuge ! 15 = CHR ''[''"
    by (simp_all add: lineHuge_def tok_eval lex_eval)
  have u: "unat (- 1 :: size_t) = 2 ^ 64 - 1"
    by (simp add: unsigned_minus_1_eq_mask mask_eq_exp_minus_1)
  have "tokenizeElementCount maxSize 1024 lineHuge 15
          \<lparr>SymbolToken.symbolName = ''e'', SymbolToken.isExport = False,
            symbolType = DATA, blockSizeCode = 2, SymbolToken.init_value = []\<rparr> = Inl LengthError"
    if "maxSize < 2 ^ 64 - 1" for maxSize
    using that
    by (simp add: tokenizeElementCount_def invalidCursor_def ASCII_DATA_def c n u resize_def
        npos_def Let_def)
  then show ?thesis
    by (simp add: n tokenizeSymbol'_def header)
qed

section \<open>Properties of the quote-aware scan\<close>

lemma spanRest_dropWhile:
  assumes "\<And>c. P c \<Longrightarrow> c \<noteq> BACKSLASH \<and> c \<noteq> q"
  shows "spanRest q (dropWhile P cs) = spanRest q cs"
  using assms by (induction cs) auto

lemma spanOk_dropWhile:
  assumes "\<And>c. P c \<Longrightarrow> c \<noteq> BACKSLASH \<and> c \<noteq> q"
  shows "spanOk q (dropWhile P cs) = spanOk q cs"
  using assms by (induction cs) auto

lemma isxdigit_plain: "isxdigit c \<Longrightarrow> c \<noteq> BACKSLASH \<and> c \<noteq> DQUOTE \<and> c \<noteq> SQUOTE"
  by (auto simp: isxdigit_def valueBetweenInclusive_def BACKSLASH_def DQUOTE_def SQUOTE_def)

lemma isOctalDigit_plain: "isOctalDigit c \<Longrightarrow> c \<noteq> BACKSLASH \<and> c \<noteq> DQUOTE \<and> c \<noteq> SQUOTE"
  by (auto simp: isOctalDigit_def valueBetweenInclusive_def BACKSLASH_def DQUOTE_def SQUOTE_def)

lemma validateHexString_takeWhile: "validateHexString (takeWhile isxdigit ds)"
  by (induction ds) (auto simp: validateHexString_def isxdigit_def)

lemma validateOctString_takeWhile: "validateOctString (takeWhile isOctalDigit ds)"
  by (induction ds) (auto simp: validateOctString_def isOctalDigit_def)

lemma advanceOverText_plain:
  "c \<noteq> BACKSLASH \<Longrightarrow> advanceOverText (c # cs) = Inr ((c, False), cs)"
  by (simp add: advanceOverText_def)

lemma advanceOverText_lone: "advanceOverText [BACKSLASH] = Inr ((BACKSLASH, True), [])"
  by (simp add: advanceOverText_def)

lemma peel_Inr: "(\<exists>w. (if c then Inr a else y) = Inr w) \<longleftrightarrow> (c \<or> (\<exists>w. y = Inr w))"
  by auto

lemma peel_last: "(\<exists>w. (if \<not> c then Inl e else Inr a) = Inr w) \<longleftrightarrow> c"
  by auto

lemma convertEscapedString_pair_ok:
  "(\<exists>w. convertEscapedString [BACKSLASH, d] = Inr w) \<longleftrightarrow> validEscape d"
proof -
  have h: "validateHexString [] = True" "validateOctString [] = True"
    "validateDecString [d] = isDecDigit d"
    by (simp_all add: validateHexString_def validateOctString_def validateDecString_def
        isDecDigit_def)
  show ?thesis
    unfolding convertEscapedString_def list.case h validEscape_def
    by (simp only: refl not_True_eq_False not_False_eq_True if_False if_True peel_Inr peel_last
        simp_thms ex_simps)
qed

lemma convertEscapedString_pair_bad:
  assumes "\<not> validEscape d"
  shows "convertEscapedString [BACKSLASH, d]
         = Inl (InvalidArgument ''Escaped string is not decimal number string.'')"
  using assms
  by (simp add: convertEscapedString_def validEscape_def validateDecString_def isDecDigit_def)

lemma convertEscapedString_hex:
  "c = CHR ''x'' \<or> c = CHR ''X'' \<Longrightarrow>
     convertEscapedString (BACKSLASH # c # takeWhile isxdigit ds)
       = Inr (charOfByte (convertHexString (takeWhile isxdigit ds)))"
  by (erule disjE)
    (simp_all add: convertEscapedString_def BACKSLASH_def DQUOTE_def SQUOTE_def
      validateHexString_takeWhile)

lemma convertEscapedString_oct:
  "c = CHR ''o'' \<or> c = CHR ''O'' \<Longrightarrow>
     convertEscapedString (BACKSLASH # c # takeWhile isOctalDigit ds)
       = Inr (charOfByte (convertOctString (takeWhile isOctalDigit ds)))"
  by (erule disjE)
    (simp_all add: convertEscapedString_def BACKSLASH_def DQUOTE_def SQUOTE_def
      validateOctString_takeWhile)

text \<open>An escape that is well formed is decoded, and the call takes, after the two
  characters, only characters that are neither a backslash nor a quote. Any other escape
  makes the call throw.\<close>

lemma advanceOverText_escape:
  assumes "escapeOk d ds"
  shows "\<exists>v P. advanceOverText (BACKSLASH # d # ds) = Inr ((v, True), dropWhile P ds)
           \<and> (\<forall>c. P c \<longrightarrow> c \<noteq> BACKSLASH \<and> c \<noteq> DQUOTE \<and> c \<noteq> SQUOTE)"
proof -
  have v: "validEscape d" and x: "(d = CHR ''x'' \<or> d = CHR ''X'') \<longrightarrow> ds \<noteq> []"
    using assms by (simp_all add: escapeOk_def)
  consider (hex) "d = CHR ''x'' \<or> d = CHR ''X''"
    | (oct) "d \<noteq> CHR ''x''" "d \<noteq> CHR ''X''" "d = CHR ''o'' \<or> d = CHR ''O''"
    | (other) "d \<noteq> CHR ''x''" "d \<noteq> CHR ''X''" "d \<noteq> CHR ''o''" "d \<noteq> CHR ''O''"
    by blast
  then show ?thesis
  proof cases
    case hex
    have "advanceOverText (BACKSLASH # d # ds)
        = Inr ((charOfByte (convertHexString (takeWhile isxdigit ds)), True),
               dropWhile isxdigit ds)"
      using hex x by (simp add: advanceOverText_def convertEscapedString_hex)
    then show ?thesis
      using isxdigit_plain
      by (intro exI [of _ "charOfByte (convertHexString (takeWhile isxdigit ds))"]
          exI [of _ isxdigit]) simp
  next
    case oct
    have "advanceOverText (BACKSLASH # d # ds)
        = Inr ((charOfByte (convertOctString (takeWhile isOctalDigit ds)), True),
               dropWhile isOctalDigit ds)"
      using oct by (simp add: advanceOverText_def convertEscapedString_oct)
    then show ?thesis
      using isOctalDigit_plain
      by (intro exI [of _ "charOfByte (convertOctString (takeWhile isOctalDigit ds))"]
          exI [of _ isOctalDigit]) simp
  next
    case other
    obtain w where w: "convertEscapedString [BACKSLASH, d] = Inr w"
      using v convertEscapedString_pair_ok by blast
    have "advanceOverText (BACKSLASH # d # ds) = Inr ((w, True), dropWhile (\<lambda>c. False) ds)"
      using other w by (simp add: advanceOverText_def)
    then show ?thesis
      by (intro exI [of _ w] exI [of _ "\<lambda>c. False"]) simp
  qed
qed

lemma advanceOverText_escape_bad:
  assumes "\<not> escapeOk d ds"
  shows "\<exists>msg. advanceOverText (BACKSLASH # d # ds) = Inl (InvalidArgument msg)"
proof (cases "d = CHR ''x'' \<or> d = CHR ''X''")
  case True
  then have "validEscape d" by (auto simp: validEscape_def)
  then have "ds = []" using assms True by (simp add: escapeOk_def)
  then show ?thesis using True by (auto simp: advanceOverText_def)
next
  case False
  then have nv: "\<not> validEscape d" using assms by (simp add: escapeOk_def)
  then have "d \<noteq> CHR ''o''" "d \<noteq> CHR ''O''" by (auto simp: validEscape_def)
  then show ?thesis
    using False convertEscapedString_pair_bad [OF nv] by (simp add: advanceOverText_def)
qed

lemma quotes_not_backslash: "DQUOTE \<noteq> BACKSLASH" "SQUOTE \<noteq> BACKSLASH" "DQUOTE \<noteq> SQUOTE"
  by (simp_all add: DQUOTE_def SQUOTE_def BACKSLASH_def)

text \<open>The character at the head of a text.\<close>

lemma advanceOverText_head:
  assumes "str \<noteq> []" and "headOk str"
  shows "\<exists>ch esc rest. advanceOverText str = Inr ((ch, esc), rest)
           \<and> (esc \<longleftrightarrow> hd str = BACKSLASH) \<and> (\<not> esc \<longrightarrow> ch = hd str)"
proof (cases str)
  case Nil
  then show ?thesis using assms by simp
next
  case (Cons c cs)
  show ?thesis
  proof (cases "c = BACKSLASH")
    case False
    then show ?thesis
      using Cons by (auto simp: advanceOverText_plain)
  next
    case True
    show ?thesis
    proof (cases cs)
      case Nil
      then show ?thesis
        using True Cons by (auto simp: advanceOverText_lone)
    next
      case (Cons d ds)
      have s: "str = BACKSLASH # d # ds" using \<open>str = c # cs\<close> True Cons by simp
      then have "escapeOk d ds" using assms(2) by simp
      then obtain v P where "advanceOverText str = Inr ((v, True), dropWhile P ds)"
        using advanceOverText_escape [of d ds] s by auto
      then show ?thesis using s by auto
    qed
  qed
qed

lemma advanceOverText_head_bad:
  assumes "\<not> headOk str"
  shows "\<exists>msg. advanceOverText str = Inl (InvalidArgument msg)"
proof -
  obtain d ds where s: "str = BACKSLASH # d # ds" and b: "\<not> escapeOk d ds"
    using assms by (cases str rule: headOk.cases) auto
  show ?thesis
    unfolding s by (rule advanceOverText_escape_bad [OF b])
qed

text \<open>Inside a span the inner loop finds the closing quote of \<open>spanRest\<close>, or throws at
  the first escape of the span that is not well formed.\<close>

lemma skipQuotedLoop_inside:
  assumes "spanOk (if isDoubleQuote then DQUOTE else SQUOTE) str"
  shows "skipQuotedLoop True isDoubleQuote str
           = (case spanRest (if isDoubleQuote then DQUOTE else SQUOTE) str of
                None \<Rightarrow> Inr ((CHR 0xFF, True), [])
              | Some r \<Rightarrow> skipQuotedLoop False False r)"
  using assms
proof (induction str rule: length_induct)
  case (1 str)
  let ?q = "if isDoubleQuote then DQUOTE else SQUOTE"
  show ?case
  proof (cases str)
    case Nil
    then show ?thesis by (subst skipQuotedLoop.simps) simp
  next
    case (Cons c cs)
    show ?thesis
    proof (cases "c = BACKSLASH")
      case False
      have adv: "advanceOverText str = Inr ((c, False), cs)"
        using False Cons by (simp add: advanceOverText_plain)
      show ?thesis
      proof (cases "c = ?q")
        case True
        then show ?thesis
          using Cons False adv
          by (subst skipQuotedLoop.simps) (auto simp: DQUOTE_def SQUOTE_def)
      next
        case notq: False
        have ok: "spanOk ?q cs" using "1.prems" Cons False notq by simp
        have ih: "skipQuotedLoop True isDoubleQuote cs
             = (case spanRest ?q cs of None \<Rightarrow> Inr ((CHR 0xFF, True), [])
                | Some r \<Rightarrow> skipQuotedLoop False False r)"
          using "1.IH" ok Cons by simp
        show ?thesis
          using Cons False notq adv ih
          by (subst skipQuotedLoop.simps) (auto simp: DQUOTE_def SQUOTE_def)
      qed
    next
      case True
      show ?thesis
      proof (cases cs)
        case Nil
        then show ?thesis
          using Cons True advanceOverText_lone
          by (subst skipQuotedLoop.simps, simp add: BACKSLASH_def DQUOTE_def SQUOTE_def)
            (subst skipQuotedLoop.simps, simp)
      next
        case (Cons d ds)
        have s: "str = BACKSLASH # d # ds" using \<open>str = c # cs\<close> True Cons by simp
        have e: "escapeOk d ds" and okds: "spanOk ?q ds"
          using "1.prems" s by simp_all
        obtain v P where adv: "advanceOverText str = Inr ((v, True), dropWhile P ds)"
          and plain: "\<And>c. P c \<Longrightarrow> c \<noteq> BACKSLASH \<and> c \<noteq> DQUOTE \<and> c \<noteq> SQUOTE"
          using advanceOverText_escape [OF e] s by auto
        have ok: "spanOk ?q (dropWhile P ds)"
          using okds plain by (subst spanOk_dropWhile) auto
        have "length (dropWhile P ds) < length str"
          using s length_dropWhile_le [of P ds] by simp
        then have ih: "skipQuotedLoop True isDoubleQuote (dropWhile P ds)
           = (case spanRest ?q (dropWhile P ds) of None \<Rightarrow> Inr ((CHR 0xFF, True), [])
              | Some r \<Rightarrow> skipQuotedLoop False False r)"
          using "1.IH" ok by simp
        have sp: "spanRest ?q (dropWhile P ds) = spanRest ?q ds"
          using plain by (intro spanRest_dropWhile) auto
        have "skipQuotedLoop True isDoubleQuote str
            = skipQuotedLoop True isDoubleQuote (dropWhile P ds)"
          using s adv by (subst skipQuotedLoop.simps) simp
        then show ?thesis
          using ih sp s by simp
      qed
    qed
  qed
qed

lemma skipQuotedLoop_inside_bad:
  assumes "\<not> spanOk (if isDoubleQuote then DQUOTE else SQUOTE) str"
  shows "\<exists>msg. skipQuotedLoop True isDoubleQuote str = Inl (InvalidArgument msg)"
  using assms
proof (induction str rule: length_induct)
  case (1 str)
  let ?q = "if isDoubleQuote then DQUOTE else SQUOTE"
  show ?case
  proof (cases str)
    case Nil
    then show ?thesis using "1.prems" by simp
  next
    case (Cons c cs)
    show ?thesis
    proof (cases "c = BACKSLASH")
      case False
      have adv: "advanceOverText str = Inr ((c, False), cs)"
        using False Cons by (simp add: advanceOverText_plain)
      have notq: "c \<noteq> ?q" and bad: "\<not> spanOk ?q cs"
        using "1.prems" Cons False by (auto split: if_splits)
      have ih: "\<exists>msg. skipQuotedLoop True isDoubleQuote cs = Inl (InvalidArgument msg)"
        using "1.IH" bad Cons by simp
      have "skipQuotedLoop True isDoubleQuote str = skipQuotedLoop True isDoubleQuote cs"
        using Cons False notq adv
        by (subst skipQuotedLoop.simps) (auto simp: DQUOTE_def SQUOTE_def)
      then show ?thesis using ih by simp
    next
      case True
      show ?thesis
      proof (cases cs)
        case Nil
        then show ?thesis using "1.prems" Cons True by simp
      next
        case (Cons d ds)
        have s: "str = BACKSLASH # d # ds" using \<open>str = c # cs\<close> True Cons by simp
        show ?thesis
        proof (cases "escapeOk d ds")
          case False
          then obtain msg where "advanceOverText str = Inl (InvalidArgument msg)"
            using advanceOverText_escape_bad s by blast
          then show ?thesis
            using s by (subst skipQuotedLoop.simps) simp
        next
          case e: True
          have bad: "\<not> spanOk ?q ds" using "1.prems" s e by simp
          obtain v P where adv: "advanceOverText str = Inr ((v, True), dropWhile P ds)"
            and plain: "\<And>c. P c \<Longrightarrow> c \<noteq> BACKSLASH \<and> c \<noteq> DQUOTE \<and> c \<noteq> SQUOTE"
            using advanceOverText_escape [OF e] s by auto
          have bad': "\<not> spanOk ?q (dropWhile P ds)"
            using bad plain by (subst spanOk_dropWhile) auto
          have "length (dropWhile P ds) < length str"
            using s length_dropWhile_le [of P ds] by simp
          then have ih: "\<exists>msg. skipQuotedLoop True isDoubleQuote (dropWhile P ds)
                            = Inl (InvalidArgument msg)"
            using "1.IH" bad' by simp
          have "skipQuotedLoop True isDoubleQuote str
              = skipQuotedLoop True isDoubleQuote (dropWhile P ds)"
            using s adv by (subst skipQuotedLoop.simps) simp
          then show ?thesis using ih by simp
        qed
      qed
    qed
  qed
qed

text \<open>Outside a span the loop skips the spans that follow and returns the character
  after them, or throws at the first escape on its way that is not well formed.\<close>

lemma scanOk_quote:
  assumes "c = DQUOTE \<or> c = SQUOTE"
  shows "scanOk (c # cs)
         = (spanOk c cs \<and> (case spanRest c cs of None \<Rightarrow> True | Some r \<Rightarrow> scanOk r))"
  using assms by (subst scanOk.simps) auto

lemma scanOk_plain:
  assumes "c \<noteq> DQUOTE" "c \<noteq> SQUOTE"
  shows "scanOk (c # cs) = headOk (c # cs)"
  using assms by (subst scanOk.simps) auto

lemma skipSpans_quote:
  assumes "c = DQUOTE \<or> c = SQUOTE"
  shows "skipSpans (c # cs) = (case spanRest c cs of None \<Rightarrow> None | Some r \<Rightarrow> skipSpans r)"
  using assms by (subst skipSpans.simps) auto

lemma skipSpans_plain:
  assumes "c \<noteq> DQUOTE" "c \<noteq> SQUOTE"
  shows "skipSpans (c # cs) = Some (c # cs)"
  using assms by (subst skipSpans.simps) auto

lemma skipQuotedLoop_enter:
  assumes "c = DQUOTE \<or> c = SQUOTE"
  shows "skipQuotedLoop False False (c # cs) = skipQuotedLoop True (c = DQUOTE) cs"
proof -
  have "c \<noteq> BACKSLASH" using assms quotes_not_backslash by auto
  then have "advanceOverText (c # cs) = Inr ((c, False), cs)"
    by (simp add: advanceOverText_plain)
  then show ?thesis
    using assms by (subst skipQuotedLoop.simps) auto
qed

lemma skipQuotedLoop_outside:
  assumes "scanOk str"
  shows "skipQuotedLoop False False str
           = (case skipSpans str of
                None \<Rightarrow> Inr ((CHR 0xFF, True), [])
              | Some t \<Rightarrow>
                  if t = [] then Inr ((CHR 0xFF, True), [])
                  else (case advanceOverText t of
                          Inl e \<Rightarrow> Inl e
                        | Inr ((ch, esc), rest) \<Rightarrow> Inr ((ch, True), rest)))"
  using assms
proof (induction str rule: length_induct)
  case (1 str)
  show ?case
  proof (cases str)
    case Nil
    then show ?thesis
      by (subst skipQuotedLoop.simps, subst skipSpans.simps) simp
  next
    case (Cons c cs)
    show ?thesis
    proof (cases "c = DQUOTE \<or> c = SQUOTE")
      case True
      have ok: "spanOk c cs" and okr: "\<And>r. spanRest c cs = Some r \<Longrightarrow> scanOk r"
        using "1.prems" Cons scanOk_quote [OF True, of cs] by auto
      have q: "(if c = DQUOTE then DQUOTE else SQUOTE) = c" using True by auto
      have step: "skipQuotedLoop False False str = skipQuotedLoop True (c = DQUOTE) cs"
        using Cons skipQuotedLoop_enter [OF True] by simp
      have inner: "skipQuotedLoop True (c = DQUOTE) cs
          = (case spanRest c cs of None \<Rightarrow> Inr ((CHR 0xFF, True), [])
             | Some r \<Rightarrow> skipQuotedLoop False False r)"
        using skipQuotedLoop_inside [of "c = DQUOTE" cs] ok q by simp
      have sk: "skipSpans str = (case spanRest c cs of None \<Rightarrow> None | Some r \<Rightarrow> skipSpans r)"
        using Cons skipSpans_quote [OF True] by simp
      show ?thesis
      proof (cases "spanRest c cs")
        case None
        then show ?thesis using step inner sk by simp
      next
        case (Some r)
        have "length r < length str"
          using spanRest_shorter [OF Some] Cons by simp
        then have "skipQuotedLoop False False r
           = (case skipSpans r of
                None \<Rightarrow> Inr ((CHR 0xFF, True), [])
              | Some t \<Rightarrow>
                  if t = [] then Inr ((CHR 0xFF, True), [])
                  else (case advanceOverText t of
                          Inl e \<Rightarrow> Inl e
                        | Inr ((ch, esc), rest) \<Rightarrow> Inr ((ch, True), rest)))"
          using "1.IH" okr [OF Some] by simp
        then show ?thesis using step inner sk Some by simp
      qed
    next
      case False
      have sk: "skipSpans str = Some str"
        using Cons False skipSpans_plain by simp
      have "headOk str"
        using "1.prems" Cons False scanOk_plain by simp
      then obtain ch esc rest where adv: "advanceOverText str = Inr ((ch, esc), rest)"
        and e: "esc \<longleftrightarrow> hd str = BACKSLASH" "\<not> esc \<longrightarrow> ch = hd str"
        using advanceOverText_head [of str] Cons by auto
      have "\<not> (\<not> esc \<and> (ch = DQUOTE \<or> ch = SQUOTE))"
        using e False Cons by auto
      then have "skipQuotedLoop False False str = Inr ((ch, True), rest)"
        using Cons adv by (subst skipQuotedLoop.simps) auto
      then show ?thesis using sk adv Cons by simp
    qed
  qed
qed

lemma skipQuotedLoop_outside_bad:
  assumes "\<not> scanOk str"
  shows "\<exists>msg. skipQuotedLoop False False str = Inl (InvalidArgument msg)"
  using assms
proof (induction str rule: length_induct)
  case (1 str)
  show ?case
  proof (cases str)
    case Nil
    then show ?thesis using "1.prems" by (subst (asm) scanOk.simps) simp
  next
    case (Cons c cs)
    show ?thesis
    proof (cases "c = DQUOTE \<or> c = SQUOTE")
      case True
      have q: "(if c = DQUOTE then DQUOTE else SQUOTE) = c" using True by auto
      have step: "skipQuotedLoop False False str = skipQuotedLoop True (c = DQUOTE) cs"
        using Cons skipQuotedLoop_enter [OF True] by simp
      show ?thesis
      proof (cases "spanOk c cs")
        case False
        then show ?thesis
          using skipQuotedLoop_inside_bad [of "c = DQUOTE" cs] q step by simp
      next
        case ok: True
        then obtain r where r: "spanRest c cs = Some r" and bad: "\<not> scanOk r"
          using "1.prems" Cons scanOk_quote [OF True, of cs] by (auto split: option.splits)
        have inner: "skipQuotedLoop True (c = DQUOTE) cs = skipQuotedLoop False False r"
          using skipQuotedLoop_inside [of "c = DQUOTE" cs] ok q r by simp
        have "length r < length str"
          using spanRest_shorter [OF r] Cons by simp
        then show ?thesis
          using "1.IH" bad step inner by simp
      qed
    next
      case False
      have "\<not> headOk str"
        using "1.prems" Cons False scanOk_plain by simp
      then obtain msg where "advanceOverText str = Inl (InvalidArgument msg)"
        using advanceOverText_head_bad by blast
      then show ?thesis
        using Cons by (subst skipQuotedLoop.simps) simp
    qed
  qed
qed

lemma skipSpans_shorter:
  "skipSpans str = Some t \<Longrightarrow> length t \<le> length str"
proof (induction str rule: length_induct)
  case (1 str)
  show ?case
  proof (cases str)
    case Nil
    then show ?thesis using "1.prems" by (subst (asm) skipSpans.simps) simp
  next
    case (Cons c cs)
    show ?thesis
    proof (cases "c = DQUOTE \<or> c = SQUOTE")
      case False
      then show ?thesis using "1.prems" Cons by (subst (asm) skipSpans.simps) auto
    next
      case True
      obtain r where r: "spanRest c cs = Some r" "skipSpans r = Some t"
        using "1.prems" Cons True
        by (subst (asm) skipSpans.simps) (auto split: option.splits)
      have l: "length r < length str" using spanRest_shorter [OF r(1)] Cons by simp
      then have "length t \<le> length r" using "1.IH" r(2) by blast
      then show ?thesis using l by simp
    qed
  qed
qed

text \<open>The text after the spans that were skipped starts with a character that the call
  reads as one outside every span.\<close>

lemma scanOk_skipSpans:
  "scanOk str \<Longrightarrow> skipSpans str = Some t \<Longrightarrow> headOk t"
proof (induction str rule: length_induct)
  case (1 str)
  show ?case
  proof (cases str)
    case Nil
    then show ?thesis using "1.prems" by (subst (asm) skipSpans.simps) auto
  next
    case (Cons c cs)
    show ?thesis
    proof (cases "c = DQUOTE \<or> c = SQUOTE")
      case False
      then show ?thesis
        using "1.prems" Cons skipSpans_plain [of c cs] scanOk_plain [of c cs] by auto
    next
      case True
      obtain r where r: "spanRest c cs = Some r" "skipSpans r = Some t"
        using "1.prems"(2) Cons skipSpans_quote [OF True, of cs] by (auto split: option.splits)
      have "scanOk r"
        using "1.prems"(1) Cons scanOk_quote [OF True, of cs] r(1) by simp
      moreover have "length r < length str" using spanRest_shorter [OF r(1)] Cons by simp
      ultimately show ?thesis
        using "1.IH" r(2) by blast
    qed
  qed
qed

lemma skipSpans_head:
  "skipSpans str = Some t \<Longrightarrow> t \<noteq> [] \<Longrightarrow> hd t \<noteq> DQUOTE \<and> hd t \<noteq> SQUOTE"
proof (induction str rule: length_induct)
  case (1 str)
  show ?case
  proof (cases str)
    case Nil
    then show ?thesis using "1.prems" by (subst (asm) skipSpans.simps) simp
  next
    case (Cons c cs)
    show ?thesis
    proof (cases "c = DQUOTE \<or> c = SQUOTE")
      case False
      then show ?thesis
        using "1.prems" Cons skipSpans_plain [of c cs] by auto
    next
      case True
      obtain r where r: "spanRest c cs = Some r" "skipSpans r = Some t"
        using "1.prems"(1) Cons skipSpans_quote [OF True, of cs] by (auto split: option.splits)
      have "length r < length str" using spanRest_shorter [OF r(1)] Cons by simp
      then show ?thesis
        using "1.IH" r(2) "1.prems"(2) by blast
    qed
  qed
qed

lemmas scan_eval =
  advanceSkipReportQuotedText_def skipQuotedLoop.simps advanceOverText_def
  convertEscapedString_def skipSpans.simps scanOk.simps escapeOk_def validEscape_def
  isDecDigit_def isOctalDigit_def isxdigit_def valueBetweenInclusive_def validateDecString_def
  validateHexString_def validateOctString_def BACKSLASH_def DQUOTE_def SQUOTE_def Let_def

subsection \<open>C7: quoted spans are skipped\<close>

text \<open>
  Claim C7, as amended. \<^verbatim>\<open>advanceSkipReportQuotedText\<close> throws \<^verbatim>\<open>std::invalid_argument\<close>
  on the empty text, and when an escape that \<^verbatim>\<open>advanceOverText\<close> does not decode lies in
  the part of the text that the call reads: in the quoted spans the text starts with, or
  at the head of the text after them. On every other text it skips the balanced quoted
  spans the text starts with and returns the character that \<^verbatim>\<open>advanceOverText\<close> reads
  right after them, which is no quote unless it is escaped, so never a character inside a
  span; the flag tells whether a span was skipped; what is left is the text after that
  character. It returns \<open>-1\<close> (the character \<open>0xFF\<close>) when the text ends inside a span,
  and when it ends with the spans.
\<close>

theorem advanceSkipReportQuotedText_spans:
  "(str \<noteq> [] \<and> scanOk str \<longrightarrow>
      (skipSpans str = None \<longrightarrow>
         advanceSkipReportQuotedText str = Inr ((CHR 0xFF, True), []))
    \<and> (skipSpans str = Some [] \<longrightarrow>
         advanceSkipReportQuotedText str = Inr ((CHR 0xFF, True), []))
    \<and> (\<forall>t. skipSpans str = Some t \<and> t \<noteq> [] \<longrightarrow>
         (\<exists>ch esc rest. advanceOverText t = Inr ((ch, esc), rest)
            \<and> advanceSkipReportQuotedText str = Inr ((ch, t \<noteq> str), rest)
            \<and> (\<not> esc \<longrightarrow> ch = hd t \<and> ch \<noteq> DQUOTE \<and> ch \<noteq> SQUOTE))))
   \<and> (str = [] \<or> \<not> scanOk str \<longrightarrow>
        (\<exists>msg. advanceSkipReportQuotedText str = Inl (InvalidArgument msg)))"
proof (cases str)
  case Nil
  then show ?thesis
    by (simp add: advanceSkipReportQuotedText_def advanceOverText_def)
next
  case (Cons c cs)
  show ?thesis
  proof (cases "c = DQUOTE \<or> c = SQUOTE")
    case False
    have sk: "skipSpans str = Some str"
      using Cons False skipSpans_plain by simp
    have so: "scanOk str = headOk str"
      using Cons False scanOk_plain by simp
    show ?thesis
    proof (cases "headOk str")
      case True
      then obtain ch esc rest where adv: "advanceOverText str = Inr ((ch, esc), rest)"
        and e: "esc \<longleftrightarrow> hd str = BACKSLASH" "\<not> esc \<longrightarrow> ch = hd str"
        using advanceOverText_head [of str] Cons by auto
      have nq: "\<not> esc \<longrightarrow> ch \<noteq> DQUOTE \<and> ch \<noteq> SQUOTE"
        using e False Cons by auto
      then have "advanceSkipReportQuotedText str = Inr ((ch, False), rest)"
        using adv by (auto simp: advanceSkipReportQuotedText_def)
      then show ?thesis using sk so True adv e(2) nq Cons by auto
    next
      case False
      then obtain msg where "advanceOverText str = Inl (InvalidArgument msg)"
        using advanceOverText_head_bad by blast
      then have "advanceSkipReportQuotedText str = Inl (InvalidArgument msg)"
        by (simp add: advanceSkipReportQuotedText_def)
      then show ?thesis using so False by simp
    qed
  next
    case True
    then have nb: "c \<noteq> BACKSLASH" using quotes_not_backslash by auto
    have adv: "advanceOverText str = Inr ((c, False), cs)"
      using nb Cons by (simp add: advanceOverText_plain)
    have q: "(if c = DQUOTE then DQUOTE else SQUOTE) = c" using True by auto
    have step: "advanceSkipReportQuotedText str = skipQuotedLoop True (c = DQUOTE) cs"
      using adv True by (auto simp: advanceSkipReportQuotedText_def)
    have sk: "skipSpans str = (case spanRest c cs of None \<Rightarrow> None | Some r \<Rightarrow> skipSpans r)"
      using Cons skipSpans_quote [OF True] by simp
    have so: "scanOk str
        = (spanOk c cs \<and> (case spanRest c cs of None \<Rightarrow> True | Some r \<Rightarrow> scanOk r))"
      using Cons scanOk_quote [OF True] by simp
    show ?thesis
    proof (cases "spanOk c cs")
      case False
      then obtain msg where "skipQuotedLoop True (c = DQUOTE) cs = Inl (InvalidArgument msg)"
        using skipQuotedLoop_inside_bad [of "c = DQUOTE" cs] q by auto
      then show ?thesis using step so False by simp
    next
      case ok: True
      have inner: "skipQuotedLoop True (c = DQUOTE) cs
            = (case spanRest c cs of None \<Rightarrow> Inr ((CHR 0xFF, True), [])
               | Some r \<Rightarrow> skipQuotedLoop False False r)"
        using skipQuotedLoop_inside [of "c = DQUOTE" cs] ok q by simp
      show ?thesis
      proof (cases "spanRest c cs")
        case None
        then show ?thesis using step inner sk so ok Cons by simp
      next
        case (Some r)
        have lr: "length r < length str" using spanRest_shorter [OF Some] Cons by simp
        have skr: "skipSpans str = skipSpans r" using sk Some by simp
        have sor: "scanOk str = scanOk r" using so ok Some by simp
        have call: "advanceSkipReportQuotedText str = skipQuotedLoop False False r"
          using step inner Some by simp
        show ?thesis
        proof (cases "scanOk r")
          case False
          then show ?thesis
            using skipQuotedLoop_outside_bad [OF False] call sor by simp
        next
          case okr: True
          have out: "advanceSkipReportQuotedText str
               = (case skipSpans r of
                    None \<Rightarrow> Inr ((CHR 0xFF, True), [])
                  | Some t \<Rightarrow>
                      if t = [] then Inr ((CHR 0xFF, True), [])
                      else (case advanceOverText t of
                              Inl e \<Rightarrow> Inl e
                            | Inr ((ch, esc), rest) \<Rightarrow> Inr ((ch, True), rest)))"
            using call skipQuotedLoop_outside [OF okr] by simp
          show ?thesis
          proof (cases "skipSpans r")
            case None
            then show ?thesis using out skr sor okr Cons by simp
          next
            case (Some t)
            show ?thesis
            proof (cases "t = []")
              case True
              then show ?thesis using out skr sor okr Some Cons by simp
            next
              case False
              have "headOk t" using scanOk_skipSpans [OF okr Some] .
              then obtain ch esc rest where adv': "advanceOverText t = Inr ((ch, esc), rest)"
                and e: "\<not> esc \<longrightarrow> ch = hd t"
                using advanceOverText_head [OF False] by auto
              have hq: "hd t \<noteq> DQUOTE \<and> hd t \<noteq> SQUOTE"
                using skipSpans_head [OF Some False] .
              have ne: "t \<noteq> str"
                using skipSpans_shorter [OF Some] lr by auto
              have "advanceSkipReportQuotedText str = Inr ((ch, True), rest)"
                using out Some False adv' by simp
              then show ?thesis using skr sor okr Some False adv' e hq ne Cons by simp
            qed
          qed
        qed
      qed
    qed
  qed
qed

theorem advanceSkipReportQuotedText_spans_witness:
  "advanceSkipReportQuotedText quotedExample = Inr ((CHR '':'', True), ''x'')
   \<and> advanceSkipReportQuotedText ([SQUOTE] @ ''a:'' @ [SQUOTE]) = Inr ((CHR 0xFF, True), [])
   \<and> advanceSkipReportQuotedText ([DQUOTE] @ ''a:'') = Inr ((CHR 0xFF, True), [])
   \<and> (\<exists>msg. advanceSkipReportQuotedText ([SQUOTE, BACKSLASH] @ ''z'' @ [SQUOTE] @ ''x'')
               = Inl (InvalidArgument msg))"
proof -
  have 1: "quotedExample \<noteq> []" "scanOk quotedExample"
    "skipSpans quotedExample = Some '':x''" "'':x'' \<noteq> quotedExample"
    by (simp_all add: quotedExample_def scan_eval)
  have 2: "[SQUOTE] @ ''a:'' @ [SQUOTE] \<noteq> []" "scanOk ([SQUOTE] @ ''a:'' @ [SQUOTE])"
    "skipSpans ([SQUOTE] @ ''a:'' @ [SQUOTE]) = Some []"
    by (simp_all add: scan_eval)
  have 3: "[DQUOTE] @ ''a:'' \<noteq> []" "scanOk ([DQUOTE] @ ''a:'')"
    "skipSpans ([DQUOTE] @ ''a:'') = None"
    by (simp_all add: scan_eval)
  have 4: "\<not> scanOk ([SQUOTE, BACKSLASH] @ ''z'' @ [SQUOTE] @ ''x'')"
    by (simp add: scan_eval)
  have a: "advanceOverText '':x'' = Inr ((CHR '':'', False), ''x'')"
    by (simp add: scan_eval)
  show ?thesis
    using advanceSkipReportQuotedText_spans [of quotedExample]
      advanceSkipReportQuotedText_spans [of "[SQUOTE] @ ''a:'' @ [SQUOTE]"]
      advanceSkipReportQuotedText_spans [of "[DQUOTE] @ ''a:''"]
      advanceSkipReportQuotedText_spans [of "[SQUOTE, BACKSLASH] @ ''z'' @ [SQUOTE] @ ''x''"]
      1 2 3 4 a
    by auto
qed

text \<open>
  The claim as stated is for every line. An escape that \<^verbatim>\<open>advanceOverText\<close> rejects makes
  the call throw, inside a quoted span too: a text that ends inside a span with \<open>\x\<close> gives
  an exception and not \<open>-1\<close>, and a closed span that holds \<open>\q\<close> is not skipped.
\<close>

theorem advanceSkipReportQuotedText_throws_counterexample:
  "skipSpans ([DQUOTE, BACKSLASH] @ ''x'') = None
   \<and> advanceSkipReportQuotedText ([DQUOTE, BACKSLASH] @ ''x'')
       = Inl (InvalidArgument (''Expected Value after '' @ [BACKSLASH] @ ''[x,X]''))
   \<and> skipSpans ([DQUOTE, BACKSLASH] @ ''q'' @ [DQUOTE] @ '':'') = Some '':''
   \<and> advanceSkipReportQuotedText ([DQUOTE, BACKSLASH] @ ''q'' @ [DQUOTE] @ '':'')
       = Inl (InvalidArgument ''Escaped string is not decimal number string.'')"
  by (simp add: scan_eval)

end
